theory Spec2Isabelle
  imports Main "HOL-Library.Word" "HOL-Library.Sublist"
begin

section \<open>JavaScript primitives used by png.js\<close>

text \<open>
  An \<open>ArrayBuffer\<close> and every \<open>Uint8Array\<close> over it is a list of bytes. JavaScript numbers
  are modelled as \<open>int\<close>: every number the decoder computes is an integer far below
  \<open>2 ^ 53\<close>, where double arithmetic is exact. \<open>undefined\<close> is \<open>None\<close>.
\<close>

type_synonym byte = "8 word"

text \<open>
  The values the decoder throws. \<open>ExpectedToBe v e\<close> is the default message of assert.js,
  \<^verbatim>\<open>`Expected ${val} to be ${expect}`\<close>; \<open>Message m\<close> is a thrown string literal;
  \<open>UnsupportedColorType c\<close> is \<^verbatim>\<open>`Unsupported Color type: ${code}`\<close>;
  \<open>InvalidBitDepth d t\<close> is
  \<^verbatim>\<open>`Invalid bit depth (${decode.depth})for colorType ${colorType.toString()}`\<close>;
  \<open>ReferenceError x\<close> is the engine's error for reading the unbound identifier \<open>x\<close>;
  \<open>RangeError\<close> is the engine's error for a typed-array view outside its buffer;
  \<open>BackendError\<close> is whatever \<open>pako.inflate\<close> throws.
\<close>

datatype error =
    ExpectedToBe "int option" int
  | Message string
  | UnsupportedColorType int
  | InvalidBitDepth int string
  | ReferenceError string
  | RangeError
  | BackendError

text \<open>Sequencing of fallible steps: the first throw ends the computation.\<close>

definition seq :: "error + 'a \<Rightarrow> ('a \<Rightarrow> error + 'b) \<Rightarrow> error + 'b" where
  "seq m f = (case m of Inl e \<Rightarrow> Inl e | Inr x \<Rightarrow> f x)"

text \<open>\<open>xs[i]\<close> on a typed array: \<open>undefined\<close> outside the array.\<close>

definition at :: "byte list \<Rightarrow> nat \<Rightarrow> int option" where
  "at xs i = (if i < length xs then Some (uint (xs ! i)) else None)"

text \<open>
  \<open>TypedArray.prototype.slice(start, end)\<close>: a negative bound counts from the end, both
  bounds are clamped to the array.
\<close>

definition slice_js :: "int \<Rightarrow> int \<Rightarrow> 'a list \<Rightarrow> 'a list" where
  "slice_js s e xs =
     (let n = int (length xs);
          k = (if s < 0 then max (n + s) 0 else min s n);
          f = (if e < 0 then max (n + e) 0 else min e n)
      in take (nat (f - k)) (drop (nat k) xs))"

text \<open>
  \<open>new Uint8Array(buffer, byteOffset, length)\<close>: a negative offset or length, or a view
  that ends beyond the buffer, raises RangeError.
\<close>

definition view :: "byte list \<Rightarrow> int \<Rightarrow> int \<Rightarrow> error + byte list" where
  "view buffer off len =
     (if off < 0 \<or> len < 0 \<or> int (length buffer) < off + len then Inl RangeError
      else Inr (take (nat len) (drop (nat off) buffer)))"

subsection \<open>assert.js\<close>

text \<open>
  \<open>assert(val).message(msg).equal(expect)\<close> throws \<open>msg\<close> when \<open>val !== expect\<close>, and the
  default message when no message was set. \<open>greater\<close> throws when \<open>val < expect\<close>.
\<close>

definition equal :: "int option \<Rightarrow> error option \<Rightarrow> int \<Rightarrow> error + unit" where
  "equal val msg expect =
     (if val \<noteq> Some expect
      then (case msg of Some m \<Rightarrow> Inl m | None \<Rightarrow> Inl (ExpectedToBe val expect))
      else Inr ())"

definition equal_true :: "bool \<Rightarrow> error \<Rightarrow> error + unit" where
  "equal_true val msg = (if val \<noteq> True then Inl msg else Inr ())"

definition greater :: "int \<Rightarrow> error \<Rightarrow> int \<Rightarrow> error + unit" where
  "greater val msg expect = (if val < expect then Inl msg else Inr ())"

subsection \<open>number\<close>

text \<open>
  The operator \<open><<\<close> converts its left operand to a signed 32-bit integer, shifts by the
  right operand modulo 32 and returns a signed 32-bit integer.
\<close>

definition to_int32 :: "int \<Rightarrow> int" where
  "to_int32 x = (x + 2 ^ 31) mod 2 ^ 32 - 2 ^ 31"

definition shl :: "int \<Rightarrow> nat \<Rightarrow> int" where
  "shl a k = to_int32 (a * 2 ^ (k mod 32))"

text \<open>
  The loop of \<open>number\<close>: at index \<open>i\<close> the exponent is \<open>(bytes.length - (i+1)) * 8\<close>, eight
  times the number of bytes still to come.
\<close>

fun number_loop :: "byte list \<Rightarrow> int \<Rightarrow> int" where
  "number_loop [] result = result"
| "number_loop (b # bs) result = number_loop bs (result + shl (uint b) (length bs * 8))"

definition number :: "byte list \<Rightarrow> int" where
  "number bytes = number_loop bytes 0"

section \<open>The tables\<close>

record chunk_type =
  name :: string
  code :: "byte list"

definition CHUNK_TYPE_PLTE :: chunk_type where
  "CHUNK_TYPE_PLTE = \<lparr>name = ''Palette'', code = [80, 76, 84, 69]\<rparr>"

definition CHUNK_TYPE_IHDR :: chunk_type where
  "CHUNK_TYPE_IHDR = \<lparr>name = ''Header'', code = [73, 72, 68, 82]\<rparr>"

definition CHUNK_TYPE_IDAT :: chunk_type where
  "CHUNK_TYPE_IDAT = \<lparr>name = ''Image Data'', code = [73, 68, 65, 84]\<rparr>"

definition CHUNK_TYPE_IEND :: chunk_type where
  "CHUNK_TYPE_IEND = \<lparr>name = ''Image Trailer'', code = [73, 69, 78, 68]\<rparr>"

record color_type =
  name :: string
  code :: int
  channels :: int
  allowed_bit_depths :: "int list"

definition GRAYSCALE :: color_type where
  "GRAYSCALE = \<lparr>name = ''Grayscale'', code = 0, channels = 1,
                 allowed_bit_depths = [1, 2, 4, 8, 16]\<rparr>"

definition RGB :: color_type where
  "RGB = \<lparr>name = ''RGB'', code = 2, channels = 3, allowed_bit_depths = [8, 16]\<rparr>"

definition PALETTE :: color_type where
  "PALETTE = \<lparr>name = ''Palette'', code = 3, channels = 1,
               allowed_bit_depths = [1, 2, 4, 8]\<rparr>"

definition ALPHA_GRAYSCALE :: color_type where
  "ALPHA_GRAYSCALE = \<lparr>name = ''Grayscale with alpha channel'', code = 4, channels = 2,
                       allowed_bit_depths = [8, 16]\<rparr>"

definition ALPHA_RGB :: color_type where
  "ALPHA_RGB = \<lparr>name = ''Grayscale with alpha channel'', code = 6, channels = 4,
                 allowed_bit_depths = [8, 16]\<rparr>"

text \<open>The entries in the order of \<open>Object.keys(COLOR_TYPE)\<close>.\<close>

definition COLOR_TYPE :: "color_type list" where
  "COLOR_TYPE = [GRAYSCALE, RGB, PALETTE, ALPHA_GRAYSCALE, ALPHA_RGB]"

section \<open>The decoder\<close>

subsection \<open>decodeColorType\<close>

definition decodeColorType :: "int \<Rightarrow> error + color_type" where
  "decodeColorType c =
     (case find (\<lambda>x. color_type.code x = c) COLOR_TYPE of
        None \<Rightarrow> Inl (UnsupportedColorType c)
      | Some t \<Rightarrow> Inr t)"

subsection \<open>decodeIHDR\<close>

record ihdr =
  width :: int
  height :: int
  depth :: int
  colorType :: color_type
  compression :: int
  filter_method :: int
  interlace :: int

text \<open>
  The four assertions on the type code, bytes 4 to 7 of a chunk, each with the message
  \<open>msg\<close>; \<open>decodeIHDR\<close>, \<open>decodePLTE\<close> and \<open>decodeIDAT\<close> spell them out for their codes.
\<close>

definition expect_type :: "byte list \<Rightarrow> chunk_type \<Rightarrow> string \<Rightarrow> error + unit" where
  "expect_type chunk t msg =
     seq (equal (at chunk 4) (Some (Message msg)) (uint (chunk_type.code t ! 0))) (\<lambda>_.
     seq (equal (at chunk 5) (Some (Message msg)) (uint (chunk_type.code t ! 1))) (\<lambda>_.
     seq (equal (at chunk 6) (Some (Message msg)) (uint (chunk_type.code t ! 2))) (\<lambda>_.
          equal (at chunk 7) (Some (Message msg)) (uint (chunk_type.code t ! 3)))))"

text \<open>
  The message of the bit-depth assertion is a template literal that reads the identifier
  \<open>colorType\<close>. png.js declares no such identifier (it has \<open>colorCode\<close> and
  \<open>decode.colorType\<close>), so the engine looks it up in the global scope of the host and
  raises ReferenceError when it is unbound. The first argument is that binding: \<open>None\<close>
  when the identifier is unbound, as it is in this repository, and \<open>Some t\<close> when the host
  binds it to an object whose \<open>toString()\<close> returns \<open>t\<close>. The argument of \<open>message\<close> is
  evaluated before \<open>equal\<close> is called, whatever the value of \<open>validDepth\<close>.
\<close>

definition decodeIHDR :: "string option \<Rightarrow> byte list \<Rightarrow> error + ihdr" where
  "decodeIHDR binding chunk =
     (let len = number (slice_js 0 4 chunk) in
      seq (equal (Some len) None 13) (\<lambda>_.
      seq (expect_type chunk CHUNK_TYPE_IHDR ''Expected IHDR header'') (\<lambda>_.
      let w = number (slice_js 8 12 chunk);
          h = number (slice_js 12 16 chunk);
          d = number (slice_js 16 17 chunk);
          colorCode = number (slice_js 17 18 chunk) in
      seq (decodeColorType colorCode) (\<lambda>ct.
      let validDepth = (d \<in> set (allowed_bit_depths ct)) in
      seq (case binding of
             None \<Rightarrow> Inl (ReferenceError ''colorType'')
           | Some t \<Rightarrow> Inr (InvalidBitDepth d t)) (\<lambda>msg.
      seq (equal_true validDepth msg) (\<lambda>_.
      Inr \<lparr>width = w, height = h, depth = d, colorType = ct,
           compression = number (slice_js 18 19 chunk),
           filter_method = number (slice_js 19 20 chunk),
           interlace = number (slice_js 20 21 chunk)\<rparr>))))))"

subsection \<open>decodePLTE\<close>

text \<open>The remainder operator \<open>%\<close> takes the sign of the dividend.\<close>

definition rem :: "int \<Rightarrow> int \<Rightarrow> int" where
  "rem a b = sgn a * (\<bar>a\<bar> mod \<bar>b\<bar>)"

function plte_loop :: "byte list \<Rightarrow> nat \<Rightarrow> byte list list \<Rightarrow> byte list list" where
  "plte_loop data i decode =
     (if i < length data
      then plte_loop data (i + 3) (decode @ [slice_js (int i) (int i + 3) data])
      else decode)"
  by pat_completeness auto
termination
  by (relation "measure (\<lambda>(data, i, decode). length data - i)") auto

definition decodePLTE :: "byte list \<Rightarrow> error + byte list list" where
  "decodePLTE chunk =
     (let len = number (slice_js 0 4 chunk) in
      seq (equal (Some (rem len 3))
             (Some (Message ''Malformed PLTE chunk, the length is not divisble by 3'')) 0) (\<lambda>_.
      seq (expect_type chunk CHUNK_TYPE_PLTE ''Expected PLTE header'') (\<lambda>_.
      let data = slice_js 8 (int (length chunk)) chunk in
      Inr (plte_loop data 0 []))))"

subsection \<open>decodeIDAT\<close>

text \<open>
  The decompression backend \<open>pako.inflate\<close> is external: it returns an array, returns a
  falsy value, or throws. A run of the decoder is the list of payloads it handed to the
  backend, in call order, together with its outcome.
\<close>

datatype inflated = Output "byte list" | NoOutput | Raised

type_synonym backend = "byte list \<Rightarrow> inflated"

type_synonym 'a run = "byte list list \<times> (error + 'a)"

definition decodeIDAT :: "backend \<Rightarrow> byte list \<Rightarrow> (byte list) run" where
  "decodeIDAT inflate chunk =
     (let len = number (slice_js 0 4 chunk) in
      case expect_type chunk CHUNK_TYPE_IDAT ''Expected IDAT header'' of
        Inl e \<Rightarrow> ([], Inl e)
      | Inr _ \<Rightarrow>
          (let payload = slice_js 8 (len + 8) chunk in
           ([payload],
            case inflate payload of
              Raised \<Rightarrow> Inl BackendError
            | NoOutput \<Rightarrow> Inl (Message ''Could not inflate IDAT payload'')
            | Output d \<Rightarrow> Inr d)))"

subsection \<open>decodeScanlines\<close>

text \<open>The body computes two locals and ends without a return statement.\<close>

definition decodeScanlines :: "string \<Rightarrow> ihdr \<Rightarrow> int list list option" where
  "decodeScanlines raw hdr =
     (let packLength = channels (colorType hdr) * depth hdr;
          len = width hdr * packLength
      in None)"

subsection \<open>getChunkIndex\<close>

text \<open>
  The loop visits every index of the buffer. \<open>data[i] == type[k]\<close> holds when both are the
  same number or both are \<open>undefined\<close>.
\<close>

fun chunk_scan :: "byte list \<Rightarrow> byte list \<Rightarrow> nat list \<Rightarrow> int list \<Rightarrow> error + int list" where
  "chunk_scan data type [] findings = Inr findings"
| "chunk_scan data type (i # is) findings =
     (if at data i = at type 0 \<and> at data (i + 1) = at type 1
         \<and> at data (i + 2) = at type 2 \<and> at data (i + 3) = at type 3
      then (case greater (int i - 4)
                   (Message ''Malformed chunk layout, found chunk type without length byte'') 0 of
              Inl e \<Rightarrow> Inl e
            | Inr _ \<Rightarrow> chunk_scan data type is (findings @ [int i - 4]))
      else chunk_scan data type is findings)"

definition getChunkIndex :: "byte list \<Rightarrow> chunk_type \<Rightarrow> error + int list" where
  "getChunkIndex buffer chunkType =
     (let type = chunk_type.code chunkType;
          data = buffer
      in seq (chunk_scan data type [0..<length data] []) (\<lambda>findings.
         if length findings = 0 then Inr [] else Inr findings))"

subsection \<open>decode\<close>

record img =
  IHDR :: ihdr
  PLTE :: "byte list list option"
  rawData :: string
  referenceImage :: "int list list option"

text \<open>The signature assertions at the head of \<open>decode\<close>.\<close>

definition check_signature :: "byte list \<Rightarrow> error + unit" where
  "check_signature buffer =
     seq (view buffer 0 8) (\<lambda>header.
     seq (equal (at header 0) None 0x89) (\<lambda>_.
     seq (equal (at header 1) None 0x50) (\<lambda>_.
     seq (equal (at header 2) None 0x4e) (\<lambda>_.
     seq (equal (at header 3) None 0x47) (\<lambda>_.
     seq (equal (at header 4) None 0x0d) (\<lambda>_.
     seq (equal (at header 5) None 0x0a) (\<lambda>_.
     seq (equal (at header 6) None 0x1a) (\<lambda>_.
          equal (at header 7) None 0x0a))))))))"

text \<open>The block of \<open>decode\<close> under the comment \<open>//PLTE\<close>.\<close>

definition read_PLTE :: "byte list \<Rightarrow> error + byte list list option" where
  "read_PLTE buffer =
     seq (getChunkIndex buffer CHUNK_TYPE_PLTE) (\<lambda>plteIndices.
     if length plteIndices > 1
     then Inl (Message ''Found multiple PLTE chunks, which is not supported'')
     else if length plteIndices > 0
     then seq (view buffer (plteIndices ! 0) 4) (\<lambda>lv.
          let plteLength = number lv in
          seq (view buffer (plteIndices ! 0) (plteLength + 8)) (\<lambda>chunk.
          seq (decodePLTE chunk) (\<lambda>p. Inr (Some p))))
     else Inr None)"

text \<open>The \<open>forEach\<close> over the IDAT indices: each index is inflated and pushed in turn.\<close>

fun inflate_each :: "backend \<Rightarrow> byte list \<Rightarrow> int list \<Rightarrow> (byte list list) run" where
  "inflate_each inflate buffer [] = ([], Inr [])"
| "inflate_each inflate buffer (x # xs) =
     (case view buffer x 4 of
        Inl e \<Rightarrow> ([], Inl e)
      | Inr lv \<Rightarrow>
          (let len = number lv in
           case view buffer x (len + 8) of
             Inl e \<Rightarrow> ([], Inl e)
           | Inr chunk \<Rightarrow>
               (case decodeIDAT inflate chunk of
                  (calls, Inl e) \<Rightarrow> (calls, Inl e)
                | (calls, Inr d) \<Rightarrow>
                    (case inflate_each inflate buffer xs of
                       (calls', Inl e) \<Rightarrow> (calls @ calls', Inl e)
                     | (calls', Inr ds) \<Rightarrow> (calls @ calls', Inr (d # ds))))))"

text \<open>
  \<open>Array.prototype.join()\<close> on the inflated arrays: each array is converted to a string
  (its bytes in decimal, separated by commas) and the strings are joined with commas.
\<close>

definition digit :: "nat \<Rightarrow> char" where
  "digit d = char_of (48 + d)"

definition byte_toString :: "byte \<Rightarrow> string" where
  "byte_toString b =
     (let n = unat b in
      if n < 10 then [digit n]
      else if n < 100 then [digit (n div 10), digit (n mod 10)]
      else [digit (n div 100), digit (n div 10 mod 10), digit (n mod 10)])"

fun join :: "string list \<Rightarrow> string" where
  "join [] = []"
| "join [x] = x"
| "join (x # y # ys) = x @ '','' @ join (y # ys)"

text \<open>The block of \<open>decode\<close> under the comment \<open>//IDAT\<close>.\<close>

definition read_IDAT :: "backend \<Rightarrow> byte list \<Rightarrow> string run" where
  "read_IDAT inflate buffer =
     (case getChunkIndex buffer CHUNK_TYPE_IDAT of
        Inl e \<Rightarrow> ([], Inl e)
      | Inr dataIndices \<Rightarrow>
          if length dataIndices = 0 then ([], Inl (Message ''No IDAT chunk found''))
          else (case inflate_each inflate buffer dataIndices of
                  (calls, Inl e) \<Rightarrow> (calls, Inl e)
                | (calls, Inr pushed) \<Rightarrow>
                    (calls, Inr (join (map (\<lambda>a. join (map byte_toString a)) pushed)))))"

definition decode_run :: "string option \<Rightarrow> backend \<Rightarrow> byte list \<Rightarrow> img run" where
  "decode_run binding inflate buffer =
     (case seq (check_signature buffer) (\<lambda>_.
           seq (seq (view buffer 8 21) (decodeIHDR binding)) (\<lambda>h.
           seq (read_PLTE buffer) (\<lambda>p. Inr (h, p)))) of
        Inl e \<Rightarrow> ([], Inl e)
      | Inr (h, p) \<Rightarrow>
          (case read_IDAT inflate buffer of
             (calls, Inl e) \<Rightarrow> (calls, Inl e)
           | (calls, Inr raw) \<Rightarrow>
               (calls, Inr \<lparr>IHDR = h, PLTE = p, rawData = raw,
                            referenceImage = decodeScanlines raw h\<rparr>)))"

text \<open>What \<open>decode\<close> returns or throws, and the payloads it hands to the backend.\<close>

definition decode :: "string option \<Rightarrow> backend \<Rightarrow> byte list \<Rightarrow> error + img" where
  "decode binding inflate buffer = snd (decode_run binding inflate buffer)"

definition inflate_calls :: "string option \<Rightarrow> backend \<Rightarrow> byte list \<Rightarrow> byte list list" where
  "inflate_calls binding inflate buffer = fst (decode_run binding inflate buffer)"

section \<open>Reference data and sample inputs\<close>

text \<open>The expected values of the eight signature assertions, in order.\<close>

definition PNG_SIGNATURE :: "byte list" where
  "PNG_SIGNATURE = [0x89, 0x50, 0x4e, 0x47, 0x0d, 0x0a, 0x1a, 0x0a]"

text \<open>A buffer whose eighth byte is 13 instead of 10.\<close>

definition bad_magic :: "byte list" where
  "bad_magic = [137, 80, 78, 71, 13, 10, 26, 13, 0, 0, 0, 13, 73, 72, 68, 82]"

text \<open>
  The end-to-end scenario: signature, IHDR (width 2, height 2, bit depth 8, colour type 0,
  compression 0, filter 0, interlace 0), one IDAT chunk holding the zlib stream of the
  scanlines 0, 0, 255 and 0, 128, 64, and IEND; every chunk with its CRC.
\<close>

definition scenario_png :: "byte list" where
  "scenario_png =
     [137, 80, 78, 71, 13, 10, 26, 10,
      0, 0, 0, 13, 73, 72, 68, 82, 0, 0, 0, 2, 0, 0, 0, 2, 8, 0, 0, 0, 0, 87, 221, 82, 248,
      0, 0, 0, 14, 73, 68, 65, 84,
      120, 218, 99, 96, 248, 207, 208, 224, 0, 0, 5, 66, 1, 192, 109, 94, 120, 160,
      0, 0, 0, 0, 73, 69, 78, 68, 174, 66, 96, 130]"

text \<open>A backend that inflates the stream of the scenario and rejects everything else.\<close>

definition scenario_inflate :: backend where
  "scenario_inflate p =
     (if p = [120, 218, 99, 96, 248, 207, 208, 224, 0, 0, 5, 66, 1, 192]
      then Output [0, 0, 255, 0, 128, 64] else Raised)"

text \<open>A backend that accepts every payload and returns it unchanged.\<close>

definition echo_inflate :: backend where
  "echo_inflate p = Output p"

text \<open>
  A 4 by 1 greyscale image whose samples are 73, 68, 65, 84, stored uncompressed in the
  zlib stream, so that the IDAT payload holds the bytes of the type code IDAT at offset 49.
\<close>

definition idat_in_payload :: "byte list" where
  "idat_in_payload =
     [137, 80, 78, 71, 13, 10, 26, 10,
      0, 0, 0, 13, 73, 72, 68, 82, 0, 0, 0, 4, 0, 0, 0, 1, 8, 0, 0, 0, 0, 220, 87, 80, 17,
      0, 0, 0, 16, 73, 68, 65, 84,
      120, 1, 1, 5, 0, 250, 255, 0, 73, 68, 65, 84, 2, 203, 1, 35, 22, 58, 174, 50,
      0, 0, 0, 0, 73, 69, 78, 68, 174, 66, 96, 130]"

text \<open>The scenario with its zlib stream split over two IDAT chunks of seven bytes each.\<close>

definition two_idat :: "byte list" where
  "two_idat =
     [137, 80, 78, 71, 13, 10, 26, 10,
      0, 0, 0, 13, 73, 72, 68, 82, 0, 0, 0, 2, 0, 0, 0, 2, 8, 0, 0, 0, 0, 87, 221, 82, 248,
      0, 0, 0, 7, 73, 68, 65, 84, 120, 218, 99, 96, 248, 207, 208, 177, 166, 187, 130,
      0, 0, 0, 7, 73, 68, 65, 84, 224, 0, 0, 5, 66, 1, 192, 140, 73, 39, 94,
      0, 0, 0, 0, 73, 69, 78, 68, 174, 66, 96, 130]"

text \<open>A 2 by 2 palette image whose PLTE chunk (two entries) follows its IDAT chunk.\<close>

definition plte_after_idat :: "byte list" where
  "plte_after_idat =
     [137, 80, 78, 71, 13, 10, 26, 10,
      0, 0, 0, 13, 73, 72, 68, 82, 0, 0, 0, 2, 0, 0, 0, 2, 8, 3, 0, 0, 0, 69, 104, 253, 22,
      0, 0, 0, 12, 73, 68, 65, 84, 120, 218, 99, 96, 96, 4, 66, 0, 0, 12, 0, 3,
      21, 158, 24, 252,
      0, 0, 0, 6, 80, 76, 84, 69, 255, 0, 0, 0, 255, 0, 210, 135, 239, 113,
      0, 0, 0, 0, 73, 69, 78, 68, 174, 66, 96, 130]"

definition plte_after_idat_inflate :: backend where
  "plte_after_idat_inflate p =
     (if p = [120, 218, 99, 96, 96, 4, 66, 0, 0, 12, 0, 3]
      then Output [0, 0, 1, 0, 1, 0] else Raised)"

text \<open>The scenario with the colour-type code 5, which is not in the table.\<close>

definition unknown_color_png :: "byte list" where
  "unknown_color_png =
     [137, 80, 78, 71, 13, 10, 26, 10,
      0, 0, 0, 13, 73, 72, 68, 82, 0, 0, 0, 2, 0, 0, 0, 2, 8, 5, 0, 0, 0, 96, 3, 162, 202,
      0, 0, 0, 14, 73, 68, 65, 84,
      120, 218, 99, 96, 248, 207, 208, 224, 0, 0, 5, 66, 1, 192, 109, 94, 120, 160,
      0, 0, 0, 0, 73, 69, 78, 68, 174, 66, 96, 130]"


text \<open>A PLTE chunk view that declares a payload of four bytes.\<close>

definition plte_length_four :: "byte list" where
  "plte_length_four = [0, 0, 0, 4, 80, 76, 84, 69, 255, 0, 0, 0]"

section \<open>The chunk layout of the specification\<close>

text \<open>
  The specification asks for chunk boundaries driven by the declared lengths alone: after
  the signature, a chunk is a 4-byte big-endian length, a 4-byte type code, that many
  payload bytes and a 4-byte CRC, and the next chunk starts right behind it; the walk stops
  at the end of the buffer or at IEND. \<open>spec_chunk_starts buffer 8\<close> lists the offsets of
  the chunks this walk finds, to be compared with what \<open>getChunkIndex\<close> finds.
\<close>

definition be32 :: "byte list \<Rightarrow> nat" where
  "be32 bs = foldl (\<lambda>a b. a * 256 + unat b) 0 bs"

function spec_chunk_starts :: "byte list \<Rightarrow> nat \<Rightarrow> nat list" where
  "spec_chunk_starts buffer pos =
     (if pos + 8 \<le> length buffer
      then pos # (if take 4 (drop (pos + 4) buffer) = chunk_type.code CHUNK_TYPE_IEND then []
                  else spec_chunk_starts buffer (pos + 12 + be32 (take 4 (drop pos buffer))))
      else [])"
  by pat_completeness auto
termination
  by (relation "measure (\<lambda>(buffer, pos). length buffer - pos)") auto

section \<open>The payload of a chunk\<close>

text \<open>
  The bytes of the chunk at offset \<open>x\<close> that \<open>decode\<close> passes on: as many bytes as the
  four bytes at \<open>x\<close> declare, starting behind the type code.
\<close>

definition payload_at :: "byte list \<Rightarrow> int \<Rightarrow> byte list" where
  "payload_at buffer x =
     take (nat (number (take 4 (drop (nat x) buffer)))) (drop (nat x + 8) buffer)"

text \<open>The scenario with its IHDR chunk repeated.\<close>

definition two_ihdr :: "byte list" where
  "two_ihdr =
     [137, 80, 78, 71, 13, 10, 26, 10,
      0, 0, 0, 13, 73, 72, 68, 82, 0, 0, 0, 2, 0, 0, 0, 2, 8, 0, 0, 0, 0, 87, 221, 82, 248,
      0, 0, 0, 13, 73, 72, 68, 82, 0, 0, 0, 2, 0, 0, 0, 2, 8, 0, 0, 0, 0, 87, 221, 82, 248,
      0, 0, 0, 14, 73, 68, 65, 84,
      120, 218, 99, 96, 248, 207, 208, 224, 0, 0, 5, 66, 1, 192, 109, 94, 120, 160,
      0, 0, 0, 0, 73, 69, 78, 68, 174, 66, 96, 130]"

text \<open>A 2 by 2 palette image with two PLTE chunks before its IDAT chunk.\<close>

definition two_plte :: "byte list" where
  "two_plte =
     [137, 80, 78, 71, 13, 10, 26, 10,
      0, 0, 0, 13, 73, 72, 68, 82, 0, 0, 0, 2, 0, 0, 0, 2, 8, 3, 0, 0, 0, 69, 104, 253, 22,
      0, 0, 0, 6, 80, 76, 84, 69, 255, 0, 0, 0, 255, 0, 210, 135, 239, 113,
      0, 0, 0, 6, 80, 76, 84, 69, 255, 0, 0, 0, 255, 0, 210, 135, 239, 113,
      0, 0, 0, 12, 73, 68, 65, 84, 120, 218, 99, 96, 96, 4, 66, 0, 0, 12, 0, 3,
      21, 158, 24, 252,
      0, 0, 0, 0, 73, 69, 78, 68, 174, 66, 96, 130]"

text \<open>Signature, IHDR and IEND, with no IDAT chunk.\<close>

definition no_idat :: "byte list" where
  "no_idat =
     [137, 80, 78, 71, 13, 10, 26, 10,
      0, 0, 0, 13, 73, 72, 68, 82, 0, 0, 0, 2, 0, 0, 0, 2, 8, 0, 0, 0, 0, 87, 221, 82, 248,
      0, 0, 0, 0, 73, 69, 78, 68, 174, 66, 96, 130]"

text \<open>A buffer that starts with the type code IDAT.\<close>

definition code_at_start :: "byte list" where
  "code_at_start = [73, 68, 65, 84, 0, 0, 0, 0]"

text \<open>
  A PLTE chunk view whose length bytes are FF FF FF FD, the big-endian value 4294967293,
  followed by the type code and three payload bytes.
\<close>

definition huge_length_plte :: "byte list" where
  "huge_length_plte = [255, 255, 255, 253, 80, 76, 84, 69, 1, 2, 3]"

section \<open>The occurrences of a type code\<close>

text \<open>The offsets of the buffer at which the bytes of the type code \<open>c\<close> stand.\<close>

definition occurrences :: "byte list \<Rightarrow> byte list \<Rightarrow> nat list" where
  "occurrences buffer c = filter (\<lambda>i. take (length c) (drop i buffer) = c) [0..<length buffer]"

section \<open>Basic facts\<close>

lemmas color_defs = GRAYSCALE_def RGB_def PALETTE_def ALPHA_GRAYSCALE_def ALPHA_RGB_def

lemma to_int32_small: "0 \<le> x \<Longrightarrow> x < 2 ^ 31 \<Longrightarrow> to_int32 x = x"
  by (simp add: to_int32_def)

lemma to_int32_big: "2 ^ 31 \<le> x \<Longrightarrow> x < 2 ^ 32 \<Longrightarrow> to_int32 x = x - 2 ^ 32"
proof -
  assume a: "2 ^ 31 \<le> x" "x < 2 ^ 32"
  have "(x + 2 ^ 31) mod 2 ^ 32 = (x + 2 ^ 31 - 2 ^ 32) mod 2 ^ 32"
    by (metis mod_diff_right_eq mod_self diff_zero)
  also have "\<dots> = x + 2 ^ 31 - 2 ^ 32"
    using a by (simp add: mod_pos_pos_trivial)
  finally show ?thesis
    by (simp add: to_int32_def)
qed

lemma uint_byte_bounds: "0 \<le> uint (b :: byte) \<and> uint b < 256"
  using uint_bounded [of b] by simp

lemma uint_byte_eq: "0 \<le> k \<Longrightarrow> k < 256 \<Longrightarrow> (uint (b :: byte) = k) = (b = word_of_int k)"
  by (auto simp: word_uint_eq_iff uint_word_of_int)

text \<open>
  Four bytes: the big-endian value when the first byte is below 128, and that value less
  \<open>2 ^ 32\<close> otherwise, because \<open><<\<close> yields a signed 32-bit integer.
\<close>

lemma number_four:
  "number [b0, b1, b2, b3] =
     (if uint b0 < 128 then uint b0 * 2 ^ 24 + uint b1 * 2 ^ 16 + uint b2 * 2 ^ 8 + uint b3
      else uint b0 * 2 ^ 24 + uint b1 * 2 ^ 16 + uint b2 * 2 ^ 8 + uint b3 - 2 ^ 32)"
proof -
  have b: "0 \<le> uint b0" "uint b0 < 256" "0 \<le> uint b1" "uint b1 < 256"
    "0 \<le> uint b2" "uint b2 < 256" "0 \<le> uint b3" "uint b3 < 256"
    using uint_byte_bounds by auto
  have s3: "shl (uint b3) 0 = uint b3"
    using b by (simp add: shl_def to_int32_small)
  have s2: "shl (uint b2) 8 = uint b2 * 2 ^ 8"
    using b by (simp add: shl_def to_int32_small)
  have s1: "shl (uint b1) 16 = uint b1 * 2 ^ 16"
    using b by (simp add: shl_def to_int32_small)
  have s0: "shl (uint b0) 24 =
      (if uint b0 < 128 then uint b0 * 2 ^ 24 else uint b0 * 2 ^ 24 - 2 ^ 32)"
    using b by (auto simp add: shl_def to_int32_small to_int32_big)
  show ?thesis
    by (simp add: number_def s0 s1 s2 s3)
qed

lemma number_one: "number [b] = uint b"
  using uint_byte_bounds [of b] by (simp add: number_def shl_def to_int32_small)

lemma expect_type_eight:
  "expect_type (c0 # c1 # c2 # c3 # c4 # c5 # c6 # c7 # rest) \<lparr>chunk_type.name = n, code = [t0, t1, t2, t3]\<rparr> msg =
     (if [c4, c5, c6, c7] = [t0, t1, t2, t3] then Inr () else Inl (Message msg))"
  by (simp add: expect_type_def at_def seq_def equal_def word_uint_eq_iff)

section \<open>number\<close>

text \<open>
  C8. The claim is that \<open>number\<close> returns the unsigned big-endian value of four bytes, a
  number from 0 up to \<open>2 ^ 32 - 1\<close>. For the bytes 128, 0, 0, 0 that value is 2147483648;
  \<open>number\<close> returns -2147483648, and for four bytes 255 it returns -1.
\<close>

theorem number_sign_bit:
  "number [128, 0, 0, 0] = - 2147483648 \<and> number [255, 255, 255, 255] = - 1"
  by (simp add: number_def shl_def to_int32_def)

section \<open>The signature\<close>

lemma check_signature_chain:
  assumes "8 \<le> length buffer"
  shows "check_signature buffer =
     (if buffer ! 0 \<noteq> 0x89 then Inl (ExpectedToBe (Some (uint (buffer ! 0))) 0x89)
      else if buffer ! 1 \<noteq> 0x50 then Inl (ExpectedToBe (Some (uint (buffer ! 1))) 0x50)
      else if buffer ! 2 \<noteq> 0x4e then Inl (ExpectedToBe (Some (uint (buffer ! 2))) 0x4e)
      else if buffer ! 3 \<noteq> 0x47 then Inl (ExpectedToBe (Some (uint (buffer ! 3))) 0x47)
      else if buffer ! 4 \<noteq> 0x0d then Inl (ExpectedToBe (Some (uint (buffer ! 4))) 0x0d)
      else if buffer ! 5 \<noteq> 0x0a then Inl (ExpectedToBe (Some (uint (buffer ! 5))) 0x0a)
      else if buffer ! 6 \<noteq> 0x1a then Inl (ExpectedToBe (Some (uint (buffer ! 6))) 0x1a)
      else if buffer ! 7 \<noteq> 0x0a then Inl (ExpectedToBe (Some (uint (buffer ! 7))) 0x0a)
      else Inr ())"
proof -
  have v: "view buffer 0 8 = Inr (take 8 buffer)"
    using assms by (simp add: view_def)
  have a: "\<And>i. i < 8 \<Longrightarrow> at (take 8 buffer) i = Some (uint (buffer ! i))"
    using assms by (simp add: at_def)
  show ?thesis
    by (simp add: check_signature_def v seq_def a equal_def uint_byte_eq)
qed

lemma decode_run_signature_fails:
  "check_signature buffer = Inl e \<Longrightarrow> decode_run binding inflate buffer = ([], Inl e)"
  by (simp add: decode_run_def seq_def)

lemma take8_nths: "8 \<le> length xs \<Longrightarrow> take 8 xs = [xs ! 0, xs ! 1, xs ! 2, xs ! 3, xs ! 4, xs ! 5, xs ! 6, xs ! 7]"
  by (auto simp: list_eq_iff_nth_eq less_Suc_eq numeral_eq_Suc)

lemma signature_error:
  assumes "8 \<le> length buffer" and "take 8 buffer \<noteq> PNG_SIGNATURE"
  shows "\<exists>i<8. take i buffer = take i PNG_SIGNATURE \<and> buffer ! i \<noteq> PNG_SIGNATURE ! i \<and>
           check_signature buffer =
             Inl (ExpectedToBe (Some (uint (buffer ! i))) (uint (PNG_SIGNATURE ! i)))"
proof -
  let ?P = "\<lambda>i. take i buffer = take i PNG_SIGNATURE \<and> buffer ! i \<noteq> PNG_SIGNATURE ! i \<and>
           check_signature buffer =
             Inl (ExpectedToBe (Some (uint (buffer ! i))) (uint (PNG_SIGNATURE ! i)))"
  note c = check_signature_chain [OF assms(1)]
  note t8 = take8_nths [OF assms(1)]
  have tk: "\<And>k. k \<le> 8 \<Longrightarrow> take k buffer = take k (take 8 buffer)"
    by (simp add: min_def)
  have ne: "\<not> (buffer ! 0 = 0x89 \<and> buffer ! 1 = 0x50 \<and> buffer ! 2 = 0x4e \<and> buffer ! 3 = 0x47
      \<and> buffer ! 4 = 0x0d \<and> buffer ! 5 = 0x0a \<and> buffer ! 6 = 0x1a \<and> buffer ! 7 = 0x0a)"
    using assms(2) t8 by (simp add: PNG_SIGNATURE_def)
  consider (0) "buffer ! 0 \<noteq> 0x89"
    | (1) "buffer ! 0 = 0x89" "buffer ! 1 \<noteq> 0x50"
    | (2) "buffer ! 0 = 0x89" "buffer ! 1 = 0x50" "buffer ! 2 \<noteq> 0x4e"
    | (3) "buffer ! 0 = 0x89" "buffer ! 1 = 0x50" "buffer ! 2 = 0x4e" "buffer ! 3 \<noteq> 0x47"
    | (4) "buffer ! 0 = 0x89" "buffer ! 1 = 0x50" "buffer ! 2 = 0x4e" "buffer ! 3 = 0x47" "buffer ! 4 \<noteq> 0x0d"
    | (5) "buffer ! 0 = 0x89" "buffer ! 1 = 0x50" "buffer ! 2 = 0x4e" "buffer ! 3 = 0x47" "buffer ! 4 = 0x0d" "buffer ! 5 \<noteq> 0x0a"
    | (6) "buffer ! 0 = 0x89" "buffer ! 1 = 0x50" "buffer ! 2 = 0x4e" "buffer ! 3 = 0x47" "buffer ! 4 = 0x0d" "buffer ! 5 = 0x0a" "buffer ! 6 \<noteq> 0x1a"
    | (7) "buffer ! 0 = 0x89" "buffer ! 1 = 0x50" "buffer ! 2 = 0x4e" "buffer ! 3 = 0x47" "buffer ! 4 = 0x0d" "buffer ! 5 = 0x0a" "buffer ! 6 = 0x1a" "buffer ! 7 \<noteq> 0x0a"
    using ne by blast
  then show ?thesis
  proof cases
    case 0
    have "take 0 buffer = take 0 (take 8 buffer)" by (rule tk) simp
    with 0 have "take 0 buffer = take 0 PNG_SIGNATURE" by (simp add: t8 PNG_SIGNATURE_def)
    with 0 have "?P 0" by (simp add: c PNG_SIGNATURE_def)
    then show ?thesis by (intro exI [of _ 0]) simp
  next
    case 1
    have "take 1 buffer = take 1 (take 8 buffer)" by (rule tk) simp
    with 1 have "take 1 buffer = take 1 PNG_SIGNATURE" by (simp add: t8 PNG_SIGNATURE_def)
    with 1 have "?P 1" by (simp add: c PNG_SIGNATURE_def)
    then show ?thesis by (intro exI [of _ 1]) simp
  next
    case 2
    have "take 2 buffer = take 2 (take 8 buffer)" by (rule tk) simp
    with 2 have "take 2 buffer = take 2 PNG_SIGNATURE" by (simp add: t8 PNG_SIGNATURE_def)
    with 2 have "?P 2" by (simp add: c PNG_SIGNATURE_def)
    then show ?thesis by (intro exI [of _ 2]) simp
  next
    case 3
    have "take 3 buffer = take 3 (take 8 buffer)" by (rule tk) simp
    with 3 have "take 3 buffer = take 3 PNG_SIGNATURE" by (simp add: t8 PNG_SIGNATURE_def)
    with 3 have "?P 3" by (simp add: c PNG_SIGNATURE_def)
    then show ?thesis by (intro exI [of _ 3]) simp
  next
    case 4
    have "take 4 buffer = take 4 (take 8 buffer)" by (rule tk) simp
    with 4 have "take 4 buffer = take 4 PNG_SIGNATURE" by (simp add: t8 PNG_SIGNATURE_def)
    with 4 have "?P 4" by (simp add: c PNG_SIGNATURE_def)
    then show ?thesis by (intro exI [of _ 4]) simp
  next
    case 5
    have "take 5 buffer = take 5 (take 8 buffer)" by (rule tk) simp
    with 5 have "take 5 buffer = take 5 PNG_SIGNATURE" by (simp add: t8 PNG_SIGNATURE_def)
    with 5 have "?P 5" by (simp add: c PNG_SIGNATURE_def)
    then show ?thesis by (intro exI [of _ 5]) simp
  next
    case 6
    have "take 6 buffer = take 6 (take 8 buffer)" by (rule tk) simp
    with 6 have "take 6 buffer = take 6 PNG_SIGNATURE" by (simp add: t8 PNG_SIGNATURE_def)
    with 6 have "?P 6" by (simp add: c PNG_SIGNATURE_def)
    then show ?thesis by (intro exI [of _ 6]) simp
  next
    case 7
    have "take 7 buffer = take 7 (take 8 buffer)" by (rule tk) simp
    with 7 have "take 7 buffer = take 7 PNG_SIGNATURE" by (simp add: t8 PNG_SIGNATURE_def)
    with 7 have "?P 7" by (simp add: c PNG_SIGNATURE_def)
    then show ?thesis by (intro exI [of _ 7]) simp
  qed
qed

lemma check_signature_prefix:
  assumes "8 \<le> length buffer"
  shows "check_signature (take 8 buffer @ other) = check_signature buffer"
proof -
  have l: "8 \<le> length (take 8 buffer @ other)" using assms by simp
  have n: "\<And>i. i < 8 \<Longrightarrow> (take 8 buffer @ other) ! i = buffer ! i"
    using assms by (simp add: nth_append)
  show ?thesis
    by (simp add: check_signature_chain [OF l] check_signature_chain [OF assms] n)
qed

text \<open>A buffer of fewer than eight bytes: the view of the signature raises RangeError.\<close>

lemma short_buffer_RangeError:
  assumes "length buffer < 8"
  shows "decode_run binding inflate buffer = ([], Inl RangeError)"
proof -
  have "check_signature buffer = Inl RangeError"
    using assms by (simp add: check_signature_def view_def seq_def)
  then show ?thesis
    by (rule decode_run_signature_fails)
qed

text \<open>
  C7. When the first eight bytes of the buffer differ from the PNG signature, \<open>decode\<close>
  throws the message of the first signature assertion that fails, at the first differing
  position. It hands nothing to the backend, and the outcome is the same for every buffer
  with these first eight bytes, whatever follows them: nothing after the signature is read.
\<close>

theorem signature_mismatch:
  assumes "8 \<le> length buffer" and "take 8 buffer \<noteq> PNG_SIGNATURE"
  shows "\<exists>i<8. take i buffer = take i PNG_SIGNATURE \<and> buffer ! i \<noteq> PNG_SIGNATURE ! i \<and>
           decode_run binding inflate buffer =
             ([], Inl (ExpectedToBe (Some (uint (buffer ! i))) (uint (PNG_SIGNATURE ! i)))) \<and>
           decode_run binding' inflate' (take 8 buffer @ other) =
             decode_run binding inflate buffer"
proof -
  from signature_error [OF assms] obtain i where i: "i < 8"
    "take i buffer = take i PNG_SIGNATURE" "buffer ! i \<noteq> PNG_SIGNATURE ! i"
    "check_signature buffer =
       Inl (ExpectedToBe (Some (uint (buffer ! i))) (uint (PNG_SIGNATURE ! i)))"
    by blast
  have "check_signature (take 8 buffer @ other) =
       Inl (ExpectedToBe (Some (uint (buffer ! i))) (uint (PNG_SIGNATURE ! i)))"
    using i(4) check_signature_prefix [OF assms(1)] by simp
  then have "decode_run binding' inflate' (take 8 buffer @ other) =
       decode_run binding inflate buffer"
    using i(4) by (simp add: decode_run_signature_fails)
  with i show ?thesis
    by (auto simp: decode_run_signature_fails)
qed

theorem signature_mismatch_witness:
  "8 \<le> length bad_magic \<and> take 8 bad_magic \<noteq> PNG_SIGNATURE \<and>
   decode_run None (\<lambda>p. Raised) bad_magic = ([], Inl (ExpectedToBe (Some 13) 10))"
proof -
  have h1: "8 \<le> length bad_magic" by (simp add: bad_magic_def)
  have h2: "take 8 bad_magic \<noteq> PNG_SIGNATURE" by (simp add: bad_magic_def PNG_SIGNATURE_def)
  from signature_mismatch [OF h1 h2, of None "\<lambda>p. Raised" None "\<lambda>p. Raised" "[]"]
  obtain i where i: "i < 8" "take i bad_magic = take i PNG_SIGNATURE"
    "bad_magic ! i \<noteq> PNG_SIGNATURE ! i"
    "decode_run None (\<lambda>p. Raised) bad_magic =
       ([], Inl (ExpectedToBe (Some (uint (bad_magic ! i))) (uint (PNG_SIGNATURE ! i))))"
    by blast
  have "i = 7"
  proof (rule ccontr)
    assume "i \<noteq> 7"
    with i(1) have "i = 0 \<or> i = 1 \<or> i = 2 \<or> i = 3 \<or> i = 4 \<or> i = 5 \<or> i = 6" by arith
    with i(3) show False by (auto simp: bad_magic_def PNG_SIGNATURE_def)
  qed
  with i(4) have "decode_run None (\<lambda>p. Raised) bad_magic = ([], Inl (ExpectedToBe (Some 13) 10))"
    by (simp add: bad_magic_def PNG_SIGNATURE_def)
  with h1 h2 show ?thesis by simp
qed

section \<open>decodeIHDR\<close>

lemma list21:
  assumes "length (chunk :: 'a list) = 21"
  obtains c0 c1 c2 c3 c4 c5 c6 c7 c8 c9 c10 c11 c12 c13 c14 c15 c16 c17 c18 c19 c20
  where "chunk = [c0, c1, c2, c3, c4, c5, c6, c7, c8, c9, c10, c11, c12, c13, c14, c15, c16,
                  c17, c18, c19, c20]"
proof -
  from assms have "\<exists>c0 c1 c2 c3 c4 c5 c6 c7 c8 c9 c10 c11 c12 c13 c14 c15 c16 c17 c18 c19 c20.
     chunk = [c0, c1, c2, c3, c4, c5, c6, c7, c8, c9, c10, c11, c12, c13, c14, c15, c16,
                  c17, c18, c19, c20]"
    by (auto simp add: numeral_eq_Suc length_Suc_conv)
  then show ?thesis by (elim exE) (erule that)
qed

lemma decodeIHDR_view:
  assumes "length chunk = 21"
  shows "decodeIHDR binding chunk =
     (if number (take 4 chunk) \<noteq> 13
      then Inl (ExpectedToBe (Some (number (take 4 chunk))) 13)
      else if take 4 (drop 4 chunk) \<noteq> chunk_type.code CHUNK_TYPE_IHDR
      then Inl (Message ''Expected IHDR header'')
      else (case decodeColorType (uint (chunk ! 17)) of
              Inl e \<Rightarrow> Inl e
            | Inr ct \<Rightarrow>
                (case binding of
                   None \<Rightarrow> Inl (ReferenceError ''colorType'')
                 | Some t \<Rightarrow>
                     if uint (chunk ! 16) \<in> set (allowed_bit_depths ct)
                     then Inr \<lparr>width = number (take 4 (drop 8 chunk)),
                               height = number (take 4 (drop 12 chunk)),
                               depth = uint (chunk ! 16), colorType = ct,
                               compression = uint (chunk ! 18),
                               filter_method = uint (chunk ! 19),
                               interlace = uint (chunk ! 20)\<rparr>
                     else Inl (InvalidBitDepth (uint (chunk ! 16)) t))))"
proof -
  from assms obtain c0 c1 c2 c3 c4 c5 c6 c7 c8 c9 c10 c11 c12 c13 c14 c15 c16 c17 c18 c19 c20
    where c: "chunk = [c0, c1, c2, c3, c4, c5, c6, c7, c8, c9, c10, c11, c12, c13, c14, c15,
                       c16, c17, c18, c19, c20]"
    by (rule list21)
  have s: "slice_js 0 4 chunk = [c0, c1, c2, c3]" "slice_js 8 12 chunk = [c8, c9, c10, c11]"
    "slice_js 12 16 chunk = [c12, c13, c14, c15]" "slice_js 16 17 chunk = [c16]"
    "slice_js 17 18 chunk = [c17]" "slice_js 18 19 chunk = [c18]" "slice_js 19 20 chunk = [c19]"
    "slice_js 20 21 chunk = [c20]"
    by (simp_all add: c slice_js_def)
  have t: "take 4 chunk = [c0, c1, c2, c3]" "take 4 (drop 4 chunk) = [c4, c5, c6, c7]"
    "take 4 (drop 8 chunk) = [c8, c9, c10, c11]" "take 4 (drop 12 chunk) = [c12, c13, c14, c15]"
    "chunk ! 16 = c16" "chunk ! 17 = c17" "chunk ! 18 = c18" "chunk ! 19 = c19" "chunk ! 20 = c20"
    by (simp_all add: c)
  have e: "expect_type chunk CHUNK_TYPE_IHDR ''Expected IHDR header'' =
      (if [c4, c5, c6, c7] = chunk_type.code CHUNK_TYPE_IHDR then Inr ()
       else Inl (Message ''Expected IHDR header''))"
    unfolding c CHUNK_TYPE_IHDR_def by (simp only: expect_type_eight chunk_type.simps)
  show ?thesis
    unfolding decodeIHDR_def s t e Let_def number_one
    by (simp add: seq_def equal_def equal_true_def split: sum.splits option.splits)
qed












section \<open>decodeColorType\<close>

text \<open>
  C10. A colour-type code outside the table 0, 2, 3, 4, 6 makes \<open>decodeColorType\<close> throw
  the unsupported-colour-type message, and a code of the table returns the table's
  descriptor for that code. \<open>decodeIHDR\<close> passes the failure on: a 21-byte view that
  passes the length and type assertions and holds a code outside the table makes it throw
  the same message.
\<close>

theorem decodeColorType_table:
  "decodeColorType c =
     (if c = 0 then Inr GRAYSCALE
      else if c = 2 then Inr RGB
      else if c = 3 then Inr PALETTE
      else if c = 4 then Inr ALPHA_GRAYSCALE
      else if c = 6 then Inr ALPHA_RGB
      else Inl (UnsupportedColorType c)) \<and>
   (length chunk = 21 \<and> number (take 4 chunk) = 13 \<and>
    take 4 (drop 4 chunk) = chunk_type.code CHUNK_TYPE_IHDR \<and>
    uint (chunk ! 17) \<notin> {0, 2, 3, 4, 6} \<longrightarrow>
    decodeIHDR binding chunk = Inl (UnsupportedColorType (uint (chunk ! 17))))"
proof (intro conjI impI)
  show "decodeColorType c =
     (if c = 0 then Inr GRAYSCALE
      else if c = 2 then Inr RGB
      else if c = 3 then Inr PALETTE
      else if c = 4 then Inr ALPHA_GRAYSCALE
      else if c = 6 then Inr ALPHA_RGB
      else Inl (UnsupportedColorType c))"
    by (simp add: decodeColorType_def COLOR_TYPE_def color_defs)
next
  assume a: "length chunk = 21 \<and> number (take 4 chunk) = 13 \<and>
    take 4 (drop 4 chunk) = chunk_type.code CHUNK_TYPE_IHDR \<and>
    uint (chunk ! 17) \<notin> {0, 2, 3, 4, 6}"
  then have l: "length chunk = 21" and n: "number (take 4 chunk) = 13"
    and t: "take 4 (drop 4 chunk) = chunk_type.code CHUNK_TYPE_IHDR"
    and u: "uint (chunk ! 17) \<notin> {0, 2, 3, 4, 6}"
    by blast+
  have "decodeColorType (uint (chunk ! 17)) = Inl (UnsupportedColorType (uint (chunk ! 17)))"
    using u by (simp add: decodeColorType_def COLOR_TYPE_def color_defs)
  then show "decodeIHDR binding chunk = Inl (UnsupportedColorType (uint (chunk ! 17)))"
    unfolding decodeIHDR_view [OF l] using n t by simp
qed

theorem decodeColorType_table_witness:
  "decodeColorType 3 = Inr PALETTE \<and> decodeColorType 5 = Inl (UnsupportedColorType 5) \<and>
   length (take 21 (drop 8 unknown_color_png)) = 21 \<and>
   number (take 4 (take 21 (drop 8 unknown_color_png))) = 13 \<and>
   take 4 (drop 4 (take 21 (drop 8 unknown_color_png))) = chunk_type.code CHUNK_TYPE_IHDR \<and>
   uint (take 21 (drop 8 unknown_color_png) ! 17) \<notin> {0, 2, 3, 4, 6} \<and>
   decodeIHDR None (take 21 (drop 8 unknown_color_png)) = Inl (UnsupportedColorType 5)"
proof -
  let ?chunk = "take 21 (drop 8 unknown_color_png)"
  have h: "length ?chunk = 21 \<and> number (take 4 ?chunk) = 13 \<and>
    take 4 (drop 4 ?chunk) = chunk_type.code CHUNK_TYPE_IHDR \<and>
    uint (?chunk ! 17) \<notin> {0, 2, 3, 4, 6}"
    by (simp add: unknown_color_png_def CHUNK_TYPE_IHDR_def number_four)
  have u: "uint (?chunk ! 17) = 5"
    by (simp add: unknown_color_png_def)
  from decodeColorType_table [of 3 ?chunk None] decodeColorType_table [of 5 ?chunk None] h
  show ?thesis
    unfolding u by (simp add: color_defs)
qed

section \<open>decodePLTE\<close>

lemma rem_three: "(rem a 3 = 0) = (3 dvd a)"
proof -
  have "(\<bar>a\<bar> mod 3 = 0) = (3 dvd a)"
    by presburger
  then show ?thesis
    by (auto simp: rem_def sgn_if)
qed

lemma slice_three:
  "i + 3 \<le> length data \<Longrightarrow>
   slice_js (int i) (int i + 3) data = [data ! i, data ! (i + 1), data ! (i + 2)]"
proof -
  assume a: "i + 3 \<le> length data"
  have "take 3 (drop i data) = [data ! i, data ! (i + 1), data ! (i + 2)]"
    using a by (auto simp: list_eq_iff_nth_eq less_Suc_eq numeral_eq_Suc)
  moreover have "slice_js (int i) (int i + 3) data = take 3 (drop i data)"
    using a by (simp add: slice_js_def min_def)
  ultimately show ?thesis by simp
qed

lemma plte_loop_groups:
  assumes "length data = 3 * n"
  shows "k \<le> n \<Longrightarrow> plte_loop data (3 * k) acc =
     acc @ map (\<lambda>j. [data ! (3 * j), data ! (3 * j + 1), data ! (3 * j + 2)]) [k..<n]"
proof (induction "n - k" arbitrary: k acc)
  case 0
  then have "k = n" by simp
  then show ?case using assms by (simp add: plte_loop.simps)
next
  case (Suc m)
  then have k: "k < n" "Suc k \<le> n" "m = n - Suc k" by simp_all
  have s: "slice_js (int (3 * k)) (int (3 * k) + 3) data =
      [data ! (3 * k), data ! (3 * k + 1), data ! (3 * k + 2)]"
    using k assms by (intro slice_three) simp
  have "plte_loop data (3 * k) acc = plte_loop data (3 * Suc k) (acc @ [slice_js (int (3 * k)) (int (3 * k) + 3) data])"
    using k assms by (subst plte_loop.simps) (simp add: add.commute)
  also have "\<dots> = (acc @ [slice_js (int (3 * k)) (int (3 * k) + 3) data]) @
      map (\<lambda>j. [data ! (3 * j), data ! (3 * j + 1), data ! (3 * j + 2)]) [Suc k..<n]"
    using Suc.hyps(1) [OF k(3) k(2)] .
  also have "\<dots> = acc @ map (\<lambda>j. [data ! (3 * j), data ! (3 * j + 1), data ! (3 * j + 2)]) [k..<n]"
    unfolding s using k(1) by (simp add: upt_conv_Cons)
  finally show ?case .
qed


lemma decodePLTE_malformed:
  assumes "\<not> 3 dvd number (slice_js 0 4 chunk)"
  shows "decodePLTE chunk =
     Inl (Message ''Malformed PLTE chunk, the length is not divisble by 3'')"
  using assms by (simp add: decodePLTE_def Let_def seq_def equal_def rem_three)

lemma decodePLTE_groups:
  assumes "length lenb = 4" and "number lenb = int (length payload)"
    and "3 dvd length payload"
  shows "decodePLTE (lenb @ chunk_type.code CHUNK_TYPE_PLTE @ payload) =
     Inr (map (\<lambda>i. [payload ! (3 * i), payload ! (3 * i + 1), payload ! (3 * i + 2)])
            [0..<length payload div 3])"
proof -
  from assms(1) obtain l0 l1 l2 l3 where l: "lenb = [l0, l1, l2, l3]"
    by (auto simp add: numeral_eq_Suc length_Suc_conv)
  let ?chunk = "lenb @ chunk_type.code CHUNK_TYPE_PLTE @ payload"
  have c: "?chunk = l0 # l1 # l2 # l3 # 80 # 76 # 84 # 69 # payload"
    by (simp add: l CHUNK_TYPE_PLTE_def)
  have s: "slice_js 0 4 ?chunk = lenb"
    by (simp add: slice_js_def l)
  have d: "slice_js 8 (int (length ?chunk)) ?chunk = payload"
    by (simp add: slice_js_def c)
  have "(3::int) dvd int (length payload)"
    using assms(3) by presburger
  then have r: "rem (number lenb) 3 = 0"
    using assms(2) by (simp add: rem_three)
  have "expect_type (l0 # l1 # l2 # l3 # 80 # 76 # 84 # 69 # payload) CHUNK_TYPE_PLTE
      ''Expected PLTE header'' = Inr ()"
    unfolding CHUNK_TYPE_PLTE_def by (simp add: expect_type_eight)
  then have e: "expect_type ?chunk CHUNK_TYPE_PLTE ''Expected PLTE header'' = Inr ()"
    by (simp only: c)
  from assms(3) obtain n where n: "length payload = 3 * n"
    by (auto simp: dvd_def)
  have "plte_loop payload (3 * 0) [] =
      [] @ map (\<lambda>i. [payload ! (3 * i), payload ! (3 * i + 1), payload ! (3 * i + 2)]) [0..<n]"
    by (rule plte_loop_groups [OF n]) simp
  then have p: "plte_loop payload 0 [] =
      map (\<lambda>i. [payload ! (3 * i), payload ! (3 * i + 1), payload ! (3 * i + 2)])
        [0..<length payload div 3]"
    by (simp add: n)
  show ?thesis
    unfolding decodePLTE_def Let_def s d r e p by (simp add: seq_def equal_def)
qed

text \<open>
  What \<open>decodePLTE\<close> does in terms of the length it reads with \<open>number\<close>: it throws the
  malformed-palette message whenever that number is not a multiple of 3, and for a PLTE
  chunk view (four length bytes that \<open>number\<close> reads as the length of the payload, the type
  code PLTE, the payload) whose length is a multiple of 3 it returns one entry per three
  payload bytes, in order. By \<open>number_four\<close> the number read is the big-endian value of the
  length bytes exactly when that value is below \<open>2 ^ 31\<close>.
\<close>

lemma decodePLTE_entries:
  "(\<not> 3 dvd number (slice_js 0 4 chunk) \<longrightarrow>
      decodePLTE chunk =
        Inl (Message ''Malformed PLTE chunk, the length is not divisble by 3'')) \<and>
   (length lenb = 4 \<and> number lenb = int (length payload) \<and> 3 dvd length payload \<longrightarrow>
      decodePLTE (lenb @ chunk_type.code CHUNK_TYPE_PLTE @ payload) =
        Inr (map (\<lambda>i. [payload ! (3 * i), payload ! (3 * i + 1), payload ! (3 * i + 2)])
               [0..<length payload div 3]))"
  using decodePLTE_malformed decodePLTE_groups by blast

lemma decodePLTE_entries_example:
  "\<not> 3 dvd number (slice_js 0 4 plte_length_four) \<and>
   decodePLTE plte_length_four =
     Inl (Message ''Malformed PLTE chunk, the length is not divisble by 3'') \<and>
   length [0, 0, 0, 6 :: byte] = 4 \<and>
   number [0, 0, 0, 6] = int (length [255, 0, 0, 0, 255, 0 :: byte]) \<and>
   3 dvd length [255, 0, 0, 0, 255, 0 :: byte] \<and>
   decodePLTE ([0, 0, 0, 6] @ chunk_type.code CHUNK_TYPE_PLTE @ [255, 0, 0, 0, 255, 0]) =
     Inr [[255, 0, 0], [0, 255, 0]]"
proof -
  have h1: "\<not> 3 dvd number (slice_js 0 4 plte_length_four)"
    by (simp add: plte_length_four_def slice_js_def number_four)
  have h2: "length [0, 0, 0, 6 :: byte] = 4 \<and>
      number [0, 0, 0, 6] = int (length [255, 0, 0, 0, 255, 0 :: byte]) \<and>
      3 dvd length [255, 0, 0, 0, 255, 0 :: byte]"
    by code_simp
  have u: "[0..<length [255, 0, 0, 0, 255, 0 :: byte] div 3] = [0, 1]"
    by (simp add: upt_conv_Cons)
  from decodePLTE_entries [of plte_length_four "[0, 0, 0, 6]" "[255, 0, 0, 0, 255, 0]"] h1 h2
  show ?thesis
    unfolding u by simp
qed

lemma not_dvd_huge: "\<not> (3::nat) dvd 4294967293"
  by simp

text \<open>
  C9. The claim is that \<open>decodePLTE\<close> fails with the malformed-palette message whenever
  the declared payload length is not a multiple of 3. The length bytes FF FF FF FD declare
  4294967293, which is not a multiple of 3; \<open>number\<close> reads them as -3, the assertion passes
  and \<open>decodePLTE\<close> returns the entry 1, 2, 3.
\<close>

theorem decodePLTE_signed_length:
  "number (slice_js 0 4 huge_length_plte) = - 3 \<and>
   be32 (slice_js 0 4 huge_length_plte) = 4294967293 \<and>
   \<not> 3 dvd be32 (slice_js 0 4 huge_length_plte) \<and>
   decodePLTE huge_length_plte = Inr [[1, 2, 3]]"
proof -
  have s: "slice_js 0 4 huge_length_plte = [255, 255, 255, 253]"
    by (simp add: huge_length_plte_def slice_js_def)
  have n: "number [255, 255, 255, 253] = - 3"
    by (simp add: number_four)
  have b: "be32 [255, 255, 255, 253] = 4294967293"
    by (simp add: be32_def)
  have d: "decodePLTE huge_length_plte = Inr [[1, 2, 3]]"
    by code_simp
  show ?thesis
    unfolding s n b using d not_dvd_huge by simp
qed

section \<open>getChunkIndex\<close>

text \<open>
  C2. The claim is that the chunks \<open>decode\<close> consumes are found by advancing over the
  declared lengths, and that payload bytes equal to a type code change nothing. On the
  well-formed image \<open>idat_in_payload\<close> the length-driven walk finds the chunks at offsets
  8, 33 and 61, one IDAT among them. \<open>getChunkIndex\<close> compares every offset of the buffer
  with the type code and reports a second IDAT chunk at offset 45, inside the payload of
  the first; \<open>decode\<close>, once the header is decoded, reads a length of 16449280 there and
  fails with a RangeError.
\<close>

theorem type_code_in_payload:
  "getChunkIndex idat_in_payload CHUNK_TYPE_IDAT = Inr [33, 45] \<and>
   spec_chunk_starts idat_in_payload 8 = [8, 33, 61] \<and>
   decode_run (Some ''T'') echo_inflate idat_in_payload =
     ([[120, 1, 1, 5, 0, 250, 255, 0, 73, 68, 65, 84, 2, 203, 1, 35]], Inl RangeError)"
  by code_simp

section \<open>The IDAT chunks and the backend\<close>

lemma view_Inr:
  assumes "view buffer off len = Inr v"
  shows "0 \<le> off \<and> 0 \<le> len \<and> off + len \<le> int (length buffer) \<and>
         v = take (nat len) (drop (nat off) buffer)"
  using assms by (auto simp: view_def split: if_splits)

lemma expect_type_length:
  assumes "expect_type chunk t msg = Inr u"
  shows "8 \<le> length chunk"
proof -
  from assms have "equal (at chunk 7) (Some (Message msg)) (uint (chunk_type.code t ! 3)) = Inr ()"
    by (auto simp: expect_type_def seq_def split: sum.splits)
  then have "at chunk 7 \<noteq> None"
    by (auto simp: equal_def split: if_splits)
  then show ?thesis
    by (auto simp: at_def split: if_splits)
qed

lemma decodeIDAT_calls:
  assumes "decodeIDAT inflate chunk = (calls, r)"
  shows "(calls = [] \<and> (\<exists>e. r = Inl e)) \<or>
         (8 \<le> length chunk \<and> calls = [slice_js 8 (number (slice_js 0 4 chunk) + 8) chunk])"
proof (cases "expect_type chunk CHUNK_TYPE_IDAT ''Expected IDAT header''")
  case (Inl e)
  with assms show ?thesis
    by (auto simp: decodeIDAT_def Let_def)
next
  case (Inr u)
  from expect_type_length [OF Inr] have "8 \<le> length chunk" .
  with assms Inr show ?thesis
    by (auto simp: decodeIDAT_def Let_def)
qed

lemma payload_of_view:
  assumes x: "0 \<le> x" and v: "x + (len + 8) \<le> int (length buffer)"
    and len: "len = number (take 4 (drop (nat x) buffer))"
    and c: "chunk = take (nat (len + 8)) (drop (nat x) buffer)"
    and l: "8 \<le> length chunk"
  shows "slice_js 8 (number (slice_js 0 4 chunk) + 8) chunk = payload_at buffer x"
proof -
  have lc: "length chunk = nat (len + 8)"
    using x v by (simp add: c)
  with l have p: "0 \<le> len"
    by linarith
  have "slice_js 0 4 chunk = take 4 chunk"
    using l by (simp add: slice_js_def)
  also have "\<dots> = take 4 (drop (nat x) buffer)"
  proof -
    have "4 \<le> nat (len + 8)"
      using p by linarith
    then show ?thesis
      by (simp add: c min_def)
  qed
  finally have n: "number (slice_js 0 4 chunk) = len"
    by (simp add: len)
  have "slice_js 8 (len + 8) chunk = take (nat len) (drop 8 chunk)"
    using p lc by (simp add: slice_js_def min_def nat_add_distrib)
  also have "\<dots> = take (nat len) (drop (nat x + 8) buffer)"
    using p by (simp add: c drop_take add.commute nat_add_distrib)
  finally show ?thesis
    by (simp add: n payload_at_def len)
qed

lemma inflate_each_calls:
  "inflate_each inflate buffer idx = (calls, r) \<Longrightarrow>
   prefix calls (map (payload_at buffer) idx) \<and>
   (\<forall>ds. r = Inr ds \<longrightarrow> calls = map (payload_at buffer) idx)"
proof (induction idx arbitrary: calls r)
  case Nil
  then show ?case by simp
next
  case (Cons x xs)
  show ?case
  proof (cases "view buffer x 4")
    case (Inl e)
    with Cons.prems show ?thesis by auto
  next
    case lv: (Inr lv)
    let ?len = "number lv"
    from view_Inr [OF lv] have x: "0 \<le> x" and lvd: "lv = take 4 (drop (nat x) buffer)"
      by simp_all
    show ?thesis
    proof (cases "view buffer x (?len + 8)")
      case (Inl e)
      with Cons.prems lv show ?thesis by (auto simp: Let_def)
    next
      case ch: (Inr chunk)
      from view_Inr [OF ch] have v: "x + (?len + 8) \<le> int (length buffer)"
        and cd: "chunk = take (nat (?len + 8)) (drop (nat x) buffer)"
        by simp_all
      obtain c1 r1 where d: "decodeIDAT inflate chunk = (c1, r1)"
        by (cases "decodeIDAT inflate chunk")
      from decodeIDAT_calls [OF d] consider
        (none) e where "c1 = []" "r1 = Inl e"
        | (one) "8 \<le> length chunk" "c1 = [slice_js 8 (number (slice_js 0 4 chunk) + 8) chunk]"
        by blast
      then show ?thesis
      proof cases
        case none
        with Cons.prems lv ch d show ?thesis by (auto simp: Let_def)
      next
        case one
        have c1: "c1 = [payload_at buffer x]"
          using payload_of_view [OF x v _ cd one(1)] lvd one(2) by simp
        obtain c2 r2 where e: "inflate_each inflate buffer xs = (c2, r2)"
          by (cases "inflate_each inflate buffer xs")
        from Cons.IH [OF e] have ih: "prefix c2 (map (payload_at buffer) xs)"
          "\<forall>ds. r2 = Inr ds \<longrightarrow> c2 = map (payload_at buffer) xs"
          by simp_all
        show ?thesis
        proof (cases r1)
          case (Inl e1)
          with Cons.prems lv ch d c1 show ?thesis by (auto simp: Let_def)
        next
          case (Inr d1)
          with Cons.prems lv ch d c1 e ih show ?thesis
            by (cases r2) (auto simp: Let_def)
        qed
      qed
    qed
  qed
qed

lemma decode_run_calls:
  "fst (decode_run binding inflate buffer) = [] \<or>
   fst (decode_run binding inflate buffer) = fst (read_IDAT inflate buffer)"
  by (auto simp: decode_run_def split: sum.splits prod.splits)

lemma decode_run_Inr:
  assumes "decode_run binding inflate buffer = (calls, Inr im)"
  shows "\<exists>raw. read_IDAT inflate buffer = (calls, Inr raw)"
  using assms by (auto simp: decode_run_def split: sum.splits prod.splits)

lemma read_IDAT_calls:
  assumes "getChunkIndex buffer CHUNK_TYPE_IDAT = Inr idx"
  shows "prefix (fst (read_IDAT inflate buffer)) (map (payload_at buffer) idx) \<and>
         (\<forall>raw. snd (read_IDAT inflate buffer) = Inr raw \<longrightarrow>
            idx \<noteq> [] \<and> fst (read_IDAT inflate buffer) = map (payload_at buffer) idx)"
proof (cases "idx = []")
  case True
  with assms show ?thesis by (simp add: read_IDAT_def)
next
  case False
  obtain c r where e: "inflate_each inflate buffer idx = (c, r)"
    by (cases "inflate_each inflate buffer idx")
  from inflate_each_calls [OF e] assms False e show ?thesis
    by (cases r) (auto simp: read_IDAT_def)
qed

lemma read_IDAT_throws:
  assumes "getChunkIndex buffer CHUNK_TYPE_IDAT = Inl e"
  shows "fst (read_IDAT inflate buffer) = []"
  using assms by (simp add: read_IDAT_def)

text \<open>
  C3, amended. \<open>decode\<close> never concatenates IDAT payloads. Every call it makes to the
  backend is on the payload of one found IDAT position (the declared-length bytes behind
  the type code), in the order found: the calls of every run are a prefix of these
  payloads, and a run that returns has made exactly one call per position, with at least
  one position. When \<open>getChunkIndex\<close> throws, no call is made.
\<close>

theorem idat_inflated_separately:
  "(getChunkIndex buffer CHUNK_TYPE_IDAT = Inr idx \<longrightarrow>
      prefix (inflate_calls binding inflate buffer) (map (payload_at buffer) idx) \<and>
      (\<forall>im. decode binding inflate buffer = Inr im \<longrightarrow>
         idx \<noteq> [] \<and> inflate_calls binding inflate buffer = map (payload_at buffer) idx)) \<and>
   (getChunkIndex buffer CHUNK_TYPE_IDAT = Inl e \<longrightarrow>
      inflate_calls binding inflate buffer = [])"
proof (intro conjI impI)
  assume a: "getChunkIndex buffer CHUNK_TYPE_IDAT = Inr idx"
  note r = read_IDAT_calls [OF a, of inflate]
  from decode_run_calls [of binding inflate buffer] r
  show "prefix (inflate_calls binding inflate buffer) (map (payload_at buffer) idx)"
    by (auto simp: inflate_calls_def)
  have "idx \<noteq> [] \<and> inflate_calls binding inflate buffer = map (payload_at buffer) idx"
    if "decode binding inflate buffer = Inr im" for im
  proof -
    let ?calls = "fst (decode_run binding inflate buffer)"
    have c: "decode_run binding inflate buffer = (?calls, Inr im)"
      using that by (simp add: decode_def prod_eq_iff)
    from decode_run_Inr [OF c] obtain raw where "read_IDAT inflate buffer = (?calls, Inr raw)"
      by blast
    with r show ?thesis
      by (simp add: inflate_calls_def)
  qed
  then show "\<forall>im. decode binding inflate buffer = Inr im \<longrightarrow>
         idx \<noteq> [] \<and> inflate_calls binding inflate buffer = map (payload_at buffer) idx"
    by blast
next
  assume "getChunkIndex buffer CHUNK_TYPE_IDAT = Inl e"
  from read_IDAT_throws [OF this, of inflate] decode_run_calls [of binding inflate buffer]
  show "inflate_calls binding inflate buffer = []"
    by (auto simp: inflate_calls_def)
qed

lemma two_idat_indices: "getChunkIndex two_idat CHUNK_TYPE_IDAT = Inr [33, 52]"
  by code_simp

lemma two_idat_echo:
  "decode_run (Some ''T'') echo_inflate two_idat =
     ([[120, 218, 99, 96, 248, 207, 208], [224, 0, 0, 5, 66, 1, 192]],
      Inr \<lparr>IHDR = \<lparr>width = 2, height = 2, depth = 8, colorType = GRAYSCALE,
                    compression = 0, filter_method = 0, interlace = 0\<rparr>,
           PLTE = None, rawData = ''120,218,99,96,248,207,208,224,0,0,5,66,1,192'',
           referenceImage = None\<rparr>)"
  by code_simp

theorem idat_inflated_separately_witness:
  "getChunkIndex two_idat CHUNK_TYPE_IDAT = Inr [33, 52] \<and>
   prefix (inflate_calls (Some ''T'') echo_inflate two_idat) (map (payload_at two_idat) [33, 52]) \<and>
   decode (Some ''T'') echo_inflate two_idat =
      Inr \<lparr>IHDR = \<lparr>width = 2, height = 2, depth = 8, colorType = GRAYSCALE,
                    compression = 0, filter_method = 0, interlace = 0\<rparr>,
           PLTE = None, rawData = ''120,218,99,96,248,207,208,224,0,0,5,66,1,192'',
           referenceImage = None\<rparr> \<and>
   inflate_calls (Some ''T'') echo_inflate two_idat = map (payload_at two_idat) [33, 52] \<and>
   inflate_calls (Some ''T'') echo_inflate two_idat =
     [[120, 218, 99, 96, 248, 207, 208], [224, 0, 0, 5, 66, 1, 192]] \<and>
   getChunkIndex code_at_start CHUNK_TYPE_IDAT =
     Inl (Message ''Malformed chunk layout, found chunk type without length byte'') \<and>
   inflate_calls (Some ''T'') echo_inflate code_at_start = []"
proof -
  have d: "decode (Some ''T'') echo_inflate two_idat =
      Inr \<lparr>IHDR = \<lparr>width = 2, height = 2, depth = 8, colorType = GRAYSCALE,
                    compression = 0, filter_method = 0, interlace = 0\<rparr>,
           PLTE = None, rawData = ''120,218,99,96,248,207,208,224,0,0,5,66,1,192'',
           referenceImage = None\<rparr>"
    by (simp add: decode_def two_idat_echo)
  have c: "inflate_calls (Some ''T'') echo_inflate two_idat =
      [[120, 218, 99, 96, 248, 207, 208], [224, 0, 0, 5, 66, 1, 192]]"
    by (simp add: inflate_calls_def two_idat_echo)
  have g: "getChunkIndex code_at_start CHUNK_TYPE_IDAT =
     Inl (Message ''Malformed chunk layout, found chunk type without length byte'')"
    by code_simp
  note t1 = idat_inflated_separately [where binding = "Some ''T''" and inflate = echo_inflate
      and buffer = two_idat, THEN conjunct1, rule_format, OF two_idat_indices]
  note t2 = idat_inflated_separately [where binding = "Some ''T''" and inflate = echo_inflate
      and buffer = code_at_start, THEN conjunct2, rule_format, OF g]
  from t1 t2 d c g two_idat_indices show ?thesis
    by simp
qed

text \<open>
  C3, as stated, fails. The stream of the scenario is split over two IDAT chunks in
  \<open>two_idat\<close>. With \<open>colorType\<close> unbound the backend is never called. With it bound, a
  backend that inflates only the whole stream is called on the first seven bytes alone
  and the decode fails; a backend that accepts anything is called twice, once per chunk.
  In no run is the backend called on the fourteen bytes of the whole stream.
\<close>

theorem idat_not_concatenated:
  "inflate_calls None scenario_inflate two_idat = [] \<and>
   inflate_calls (Some ''T'') scenario_inflate two_idat = [[120, 218, 99, 96, 248, 207, 208]] \<and>
   decode (Some ''T'') scenario_inflate two_idat = Inl BackendError \<and>
   inflate_calls (Some ''T'') echo_inflate two_idat =
     [[120, 218, 99, 96, 248, 207, 208], [224, 0, 0, 5, 66, 1, 192]]"
  by code_simp

section \<open>The order of the chunks\<close>

lemma check_signature_Inr:
  assumes "check_signature buffer = Inr u"
  shows "8 \<le> length buffer \<and> take 8 buffer = PNG_SIGNATURE"
proof -
  from assms obtain header where "view buffer 0 8 = Inr header"
    by (auto simp: check_signature_def seq_def split: sum.splits)
  from view_Inr [OF this] have l: "8 \<le> length buffer"
    by simp
  from assms have "buffer ! 0 = 0x89 \<and> buffer ! 1 = 0x50 \<and> buffer ! 2 = 0x4e \<and> buffer ! 3 = 0x47
      \<and> buffer ! 4 = 0x0d \<and> buffer ! 5 = 0x0a \<and> buffer ! 6 = 0x1a \<and> buffer ! 7 = 0x0a"
    unfolding check_signature_chain [OF l] by (simp split: if_splits)
  then have "take 8 buffer = PNG_SIGNATURE"
    unfolding take8_nths [OF l] by (simp add: PNG_SIGNATURE_def)
  with l show ?thesis by simp
qed

lemma decodeIHDR_Inr:
  assumes "length chunk = 21" and "decodeIHDR binding chunk = Inr h"
  shows "number (take 4 chunk) = 13 \<and> take 4 (drop 4 chunk) = chunk_type.code CHUNK_TYPE_IHDR"
  using assms(2) unfolding decodeIHDR_view [OF assms(1)]
  by (simp split: if_splits)

lemma read_PLTE_Inr:
  assumes "read_PLTE buffer = Inr p"
  shows "\<exists>i. getChunkIndex buffer CHUNK_TYPE_PLTE = Inr i \<and> length i \<le> 1"
  using assms by (auto simp: read_PLTE_def seq_def split: sum.splits if_splits)

lemma read_PLTE_multiple:
  assumes "getChunkIndex buffer CHUNK_TYPE_PLTE = Inr i" and "1 < length i"
  shows "read_PLTE buffer = Inl (Message ''Found multiple PLTE chunks, which is not supported'')"
  using assms by (simp add: read_PLTE_def seq_def)

lemma read_IDAT_Inr:
  assumes "read_IDAT inflate buffer = (calls, Inr raw)"
  shows "\<exists>d. getChunkIndex buffer CHUNK_TYPE_IDAT = Inr d \<and> d \<noteq> []"
  using assms by (auto simp: read_IDAT_def split: sum.splits if_splits)

lemma read_IDAT_none:
  assumes "getChunkIndex buffer CHUNK_TYPE_IDAT = Inr []"
  shows "read_IDAT inflate buffer = ([], Inl (Message ''No IDAT chunk found''))"
  using assms by (simp add: read_IDAT_def)

lemma decode_run_stages:
  assumes "decode_run binding inflate buffer = (calls, Inr im)"
  shows "\<exists>chunk h p raw. check_signature buffer = Inr () \<and> view buffer 8 21 = Inr chunk \<and>
           decodeIHDR binding chunk = Inr h \<and> read_PLTE buffer = Inr p \<and>
           read_IDAT inflate buffer = (calls, Inr raw)"
  using assms by (auto simp: decode_run_def seq_def split: sum.splits prod.splits)

lemma take4_nths:
  "i + 4 \<le> length xs \<Longrightarrow> take 4 (drop i xs) = [xs ! i, xs ! (i + 1), xs ! (i + 2), xs ! (i + 3)]"
  by (auto simp: list_eq_iff_nth_eq less_Suc_eq numeral_eq_Suc)

lemma type_match:
  "(at data i = at [t0, t1, t2, t3] 0 \<and> at data (i + 1) = at [t0, t1, t2, t3] 1 \<and>
    at data (i + 2) = at [t0, t1, t2, t3] 2 \<and> at data (i + 3) = at [t0, t1, t2, t3] 3) =
   (take 4 (drop i data) = [t0, t1, t2, t3])"
proof (cases "i + 4 \<le> length data")
  case True
  then show ?thesis
    by (simp add: take4_nths at_def word_uint_eq_iff)
next
  case False
  then have "length (take 4 (drop i data)) < 4"
    by simp
  have "take 4 (drop i data) \<noteq> [t0, t1, t2, t3]"
  proof
    assume "take 4 (drop i data) = [t0, t1, t2, t3]"
    then have "length (take 4 (drop i data)) = length [t0, t1, t2, t3]"
      by (rule arg_cong)
    with False show False
      by simp
  qed
  moreover have "at data (i + 3) = None"
    using False by (simp add: at_def)
  ultimately show ?thesis
    by (simp add: at_def)
qed


lemma chunk_scan_filter:
  "chunk_scan data [t0, t1, t2, t3] js findings =
     (if \<exists>i\<in>set js. take 4 (drop i data) = [t0, t1, t2, t3] \<and> i < 4
      then Inl (Message ''Malformed chunk layout, found chunk type without length byte'')
      else Inr (findings @
             map (\<lambda>i. int i - 4) (filter (\<lambda>i. take 4 (drop i data) = [t0, t1, t2, t3]) js)))"
proof (induction js arbitrary: findings)
  case Nil
  then show ?case by simp
next
  case (Cons j js)
  have step: "chunk_scan data [t0, t1, t2, t3] (j # js) findings =
      (if take 4 (drop j data) = [t0, t1, t2, t3]
       then (case greater (int j - 4)
                   (Message ''Malformed chunk layout, found chunk type without length byte'') 0 of
               Inl e \<Rightarrow> Inl e
             | Inr _ \<Rightarrow> chunk_scan data [t0, t1, t2, t3] js (findings @ [int j - 4]))
       else chunk_scan data [t0, t1, t2, t3] js findings)"
    by (simp only: chunk_scan.simps type_match)
  show ?case
  proof (cases "take 4 (drop j data) = [t0, t1, t2, t3]")
    case False
    then show ?thesis
      unfolding step by (simp add: Cons.IH)
  next
    case True
    show ?thesis
    proof (cases "j < 4")
      case True
      with \<open>take 4 (drop j data) = [t0, t1, t2, t3]\<close> show ?thesis
        unfolding step by (simp add: greater_def)
    next
      case False
      with \<open>take 4 (drop j data) = [t0, t1, t2, t3]\<close> show ?thesis
        unfolding step by (simp add: greater_def Cons.IH)
    qed
  qed
qed

lemma occurrences_four:
  "occurrences buffer [t0, t1, t2, t3] =
     filter (\<lambda>i. take 4 (drop i buffer) = [t0, t1, t2, t3]) [0..<length buffer]"
proof -
  have "length [t0, t1, t2, t3] = 4"
    by simp
  then show ?thesis
    by (simp only: occurrences_def)
qed

lemma getChunkIndex_occurrences:
  assumes "chunk_type.code t = [t0, t1, t2, t3]"
  shows "getChunkIndex buffer t =
     (if \<exists>i\<in>set (occurrences buffer (chunk_type.code t)). i < 4
      then Inl (Message ''Malformed chunk layout, found chunk type without length byte'')
      else Inr (map (\<lambda>i. int i - 4) (occurrences buffer (chunk_type.code t))))"
  unfolding getChunkIndex_def Let_def assms chunk_scan_filter occurrences_four
  by (auto simp: seq_def)

lemma getChunkIndex_Inr:
  assumes "chunk_type.code t = [t0, t1, t2, t3]" and "getChunkIndex buffer t = Inr idx"
  shows "idx = map (\<lambda>i. int i - 4) (occurrences buffer (chunk_type.code t))"
  using assms(2) unfolding getChunkIndex_occurrences [OF assms(1)]
  by (simp split: if_splits)

lemma code_PLTE: "chunk_type.code CHUNK_TYPE_PLTE = [80, 76, 84, 69]"
  by (simp add: CHUNK_TYPE_PLTE_def)

lemma code_IDAT: "chunk_type.code CHUNK_TYPE_IDAT = [73, 68, 65, 84]"
  by (simp add: CHUNK_TYPE_IDAT_def)

text \<open>Behind the signature no type code of the table starts within the first four bytes.\<close>

lemma occurrences_behind_signature:
  assumes "check_signature buffer = Inr ()"
    and "c = chunk_type.code CHUNK_TYPE_PLTE \<or> c = chunk_type.code CHUNK_TYPE_IDAT"
    and "i \<in> set (occurrences buffer c)"
  shows "4 \<le> i"
proof (rule ccontr)
  assume "\<not> 4 \<le> i"
  then have i: "i = 0 \<or> i = 1 \<or> i = 2 \<or> i = 3"
    by arith
  from check_signature_Inr [OF assms(1)] have l: "8 \<le> length buffer"
    and s: "take 8 buffer = PNG_SIGNATURE"
    by simp_all
  from assms(2,3) have m: "take 4 (drop i buffer) = c"
    unfolding code_PLTE code_IDAT by (auto simp: occurrences_four)
  have "take 4 (drop i buffer) = take 4 (drop i (take 8 buffer))"
    using i by (auto simp: drop_take)
  then have "take 4 (drop i PNG_SIGNATURE) = c"
    using m s by simp
  with i assms(2) show False
    by (auto simp: PNG_SIGNATURE_def code_PLTE code_IDAT)
qed

lemma getChunkIndex_behind_signature:
  assumes "check_signature buffer = Inr ()"
    and "t = CHUNK_TYPE_PLTE \<or> t = CHUNK_TYPE_IDAT"
  shows "getChunkIndex buffer t = Inr (map (\<lambda>i. int i - 4) (occurrences buffer (chunk_type.code t)))"
proof -
  from assms(2) obtain t0 t1 t2 t3 where c: "chunk_type.code t = [t0, t1, t2, t3]"
    using code_PLTE code_IDAT by auto
  have "\<not> (\<exists>i\<in>set (occurrences buffer (chunk_type.code t)). i < 4)"
    using occurrences_behind_signature [OF assms(1), of "chunk_type.code t"] assms(2)
    by fastforce
  then show ?thesis
    unfolding getChunkIndex_occurrences [OF c] by simp
qed

lemma decode_run_header:
  assumes "check_signature buffer = Inr ()" and "view buffer 8 21 = Inr chunk"
    and "decodeIHDR binding chunk = Inr h"
  shows "decode_run binding inflate buffer =
     (case read_PLTE buffer of
        Inl e \<Rightarrow> ([], Inl e)
      | Inr p \<Rightarrow>
          (case read_IDAT inflate buffer of
             (calls, Inl e) \<Rightarrow> (calls, Inl e)
           | (calls, Inr raw) \<Rightarrow>
               (calls, Inr \<lparr>IHDR = h, PLTE = p, rawData = raw,
                            referenceImage = decodeScanlines raw h\<rparr>)))"
  using assms by (simp add: decode_run_def seq_def split: sum.splits)

lemma decode_success_checks:
  assumes "decode binding inflate buffer = Inr im"
  shows "take 8 buffer = PNG_SIGNATURE \<and>
         number (take 4 (drop 8 buffer)) = 13 \<and>
         take 4 (drop 12 buffer) = chunk_type.code CHUNK_TYPE_IHDR \<and>
         length (occurrences buffer (chunk_type.code CHUNK_TYPE_PLTE)) \<le> 1 \<and>
         occurrences buffer (chunk_type.code CHUNK_TYPE_IDAT) \<noteq> []"
proof -
  let ?calls = "fst (decode_run binding inflate buffer)"
  have "decode_run binding inflate buffer = (?calls, Inr im)"
    using assms by (simp add: decode_def prod_eq_iff)
  from decode_run_stages [OF this] obtain chunk h p raw where
    s: "check_signature buffer = Inr ()" and v: "view buffer 8 21 = Inr chunk"
    and i: "decodeIHDR binding chunk = Inr h" and pl: "read_PLTE buffer = Inr p"
    and d: "read_IDAT inflate buffer = (?calls, Inr raw)"
    by blast
  from view_Inr [OF v] have l: "29 \<le> length buffer" and c: "chunk = take 21 (drop 8 buffer)"
    by simp_all
  have lc: "length chunk = 21"
    using l by (simp add: c)
  have t: "take 4 chunk = take 4 (drop 8 buffer)"
    "take 4 (drop 4 chunk) = take 4 (drop 12 buffer)"
    by (simp_all add: c drop_take)
  from decodeIHDR_Inr [OF lc i] have hd: "number (take 4 (drop 8 buffer)) = 13"
    "take 4 (drop 12 buffer) = chunk_type.code CHUNK_TYPE_IHDR"
    unfolding t by simp_all
  from read_PLTE_Inr [OF pl] obtain pi where
    "getChunkIndex buffer CHUNK_TYPE_PLTE = Inr pi" "length pi \<le> 1"
    by blast
  with getChunkIndex_Inr [OF code_PLTE] have np:
    "length (occurrences buffer (chunk_type.code CHUNK_TYPE_PLTE)) \<le> 1"
    by fastforce
  from read_IDAT_Inr [OF d] obtain di where
    "getChunkIndex buffer CHUNK_TYPE_IDAT = Inr di" "di \<noteq> []"
    by blast
  with getChunkIndex_Inr [OF code_IDAT] have nd:
    "occurrences buffer (chunk_type.code CHUNK_TYPE_IDAT) \<noteq> []"
    by fastforce
  from check_signature_Inr [OF s] hd np nd show ?thesis
    by simp
qed

lemma decode_multiple_PLTE:
  assumes "check_signature buffer = Inr ()" and "view buffer 8 21 = Inr chunk"
    and "decodeIHDR binding chunk = Inr h"
    and "1 < length (occurrences buffer (chunk_type.code CHUNK_TYPE_PLTE))"
  shows "decode binding inflate buffer =
     Inl (Message ''Found multiple PLTE chunks, which is not supported'')"
proof -
  have "getChunkIndex buffer CHUNK_TYPE_PLTE =
      Inr (map (\<lambda>i. int i - 4) (occurrences buffer (chunk_type.code CHUNK_TYPE_PLTE)))"
    by (rule getChunkIndex_behind_signature [OF assms(1)]) simp
  then have "read_PLTE buffer =
      Inl (Message ''Found multiple PLTE chunks, which is not supported'')"
    using assms(4) by (simp add: read_PLTE_def seq_def)
  then show ?thesis
    by (simp add: decode_def decode_run_header [OF assms(1-3)])
qed

lemma decode_no_IDAT:
  assumes "check_signature buffer = Inr ()" and "view buffer 8 21 = Inr chunk"
    and "decodeIHDR binding chunk = Inr h" and "read_PLTE buffer = Inr p"
    and "occurrences buffer (chunk_type.code CHUNK_TYPE_IDAT) = []"
  shows "decode binding inflate buffer = Inl (Message ''No IDAT chunk found'')"
proof -
  have "getChunkIndex buffer CHUNK_TYPE_IDAT = Inr []"
    using getChunkIndex_behind_signature [OF assms(1), of CHUNK_TYPE_IDAT] assms(5) by simp
  then have "read_IDAT inflate buffer = ([], Inl (Message ''No IDAT chunk found''))"
    by (simp add: read_IDAT_def)
  then show ?thesis
    by (simp add: decode_def decode_run_header [OF assms(1-3)] assms(4))
qed

text \<open>
  C6, amended. A buffer that \<open>decode\<close> decodes starts with the signature, its chunk at
  offset 8 declares the length 13 and has the type IHDR, the type code PLTE occurs in it
  at most once and the type code IDAT at least once. Once the header is decoded, a buffer
  in which the type code PLTE occurs more than once makes \<open>decode\<close> throw the
  multiple-PLTE message, and, once the palette stage has passed, a buffer in which the
  type code IDAT does not occur makes it throw the no-IDAT message.
\<close>

theorem decode_chunk_checks:
  "(decode binding inflate buffer = Inr im \<longrightarrow>
      take 8 buffer = PNG_SIGNATURE \<and>
      number (take 4 (drop 8 buffer)) = 13 \<and>
      take 4 (drop 12 buffer) = chunk_type.code CHUNK_TYPE_IHDR \<and>
      length (occurrences buffer (chunk_type.code CHUNK_TYPE_PLTE)) \<le> 1 \<and>
      occurrences buffer (chunk_type.code CHUNK_TYPE_IDAT) \<noteq> []) \<and>
   (check_signature buffer = Inr () \<and> view buffer 8 21 = Inr chunk \<and>
    decodeIHDR binding chunk = Inr h \<and>
    1 < length (occurrences buffer (chunk_type.code CHUNK_TYPE_PLTE)) \<longrightarrow>
      decode binding inflate buffer =
        Inl (Message ''Found multiple PLTE chunks, which is not supported'')) \<and>
   (check_signature buffer = Inr () \<and> view buffer 8 21 = Inr chunk \<and>
    decodeIHDR binding chunk = Inr h \<and> read_PLTE buffer = Inr p \<and>
    occurrences buffer (chunk_type.code CHUNK_TYPE_IDAT) = [] \<longrightarrow>
      decode binding inflate buffer = Inl (Message ''No IDAT chunk found''))"
  using decode_success_checks decode_multiple_PLTE decode_no_IDAT by blast

lemma plte_after_idat_bound:
  "decode_run (Some ''T'') plte_after_idat_inflate plte_after_idat =
     ([[120, 218, 99, 96, 96, 4, 66, 0, 0, 12, 0, 3]],
      Inr \<lparr>IHDR = \<lparr>width = 2, height = 2, depth = 8, colorType = PALETTE,
                    compression = 0, filter_method = 0, interlace = 0\<rparr>,
           PLTE = Some [[255, 0, 0], [0, 255, 0]], rawData = ''0,0,1,0,1,0'',
           referenceImage = None\<rparr>)"
  by code_simp

text \<open>
  C6, as stated, fails. In \<open>plte_after_idat\<close> the type code PLTE (offset 61) follows the
  type code IDAT (offset 37), and in \<open>two_ihdr\<close> the IHDR chunk occurs twice (type codes
  at offsets 12 and 37). With \<open>colorType\<close> unbound \<open>decode\<close> throws the ReferenceError of
  every header on both; with it bound \<open>decode\<close> returns an image for both. Neither the
  order of PLTE and IDAT nor the second IHDR is examined.
\<close>

theorem chunk_order_not_checked:
  "occurrences plte_after_idat (chunk_type.code CHUNK_TYPE_IDAT) = [37] \<and>
   occurrences plte_after_idat (chunk_type.code CHUNK_TYPE_PLTE) = [61] \<and>
   decode None plte_after_idat_inflate plte_after_idat = Inl (ReferenceError ''colorType'') \<and>
   decode (Some ''T'') plte_after_idat_inflate plte_after_idat =
     Inr \<lparr>IHDR = \<lparr>width = 2, height = 2, depth = 8, colorType = PALETTE,
                   compression = 0, filter_method = 0, interlace = 0\<rparr>,
          PLTE = Some [[255, 0, 0], [0, 255, 0]], rawData = ''0,0,1,0,1,0'',
          referenceImage = None\<rparr> \<and>
   occurrences two_ihdr (chunk_type.code CHUNK_TYPE_IHDR) = [12, 37] \<and>
   decode None scenario_inflate two_ihdr = Inl (ReferenceError ''colorType'') \<and>
   decode (Some ''T'') scenario_inflate two_ihdr =
     Inr \<lparr>IHDR = \<lparr>width = 2, height = 2, depth = 8, colorType = GRAYSCALE,
                   compression = 0, filter_method = 0, interlace = 0\<rparr>,
          PLTE = None, rawData = ''0,0,255,0,128,64'', referenceImage = None\<rparr>"
  by code_simp

theorem decode_chunk_checks_witness:
  "decode (Some ''T'') plte_after_idat_inflate plte_after_idat =
     Inr \<lparr>IHDR = \<lparr>width = 2, height = 2, depth = 8, colorType = PALETTE,
                   compression = 0, filter_method = 0, interlace = 0\<rparr>,
          PLTE = Some [[255, 0, 0], [0, 255, 0]], rawData = ''0,0,1,0,1,0'',
          referenceImage = None\<rparr> \<and>
   take 8 plte_after_idat = PNG_SIGNATURE \<and>
   number (take 4 (drop 8 plte_after_idat)) = 13 \<and>
   take 4 (drop 12 plte_after_idat) = chunk_type.code CHUNK_TYPE_IHDR \<and>
   length (occurrences plte_after_idat (chunk_type.code CHUNK_TYPE_PLTE)) \<le> 1 \<and>
   occurrences plte_after_idat (chunk_type.code CHUNK_TYPE_IDAT) \<noteq> [] \<and>
   check_signature two_plte = Inr () \<and>
   view two_plte 8 21 = Inr (take 21 (drop 8 two_plte)) \<and>
   decodeIHDR (Some ''T'') (take 21 (drop 8 two_plte)) =
     Inr \<lparr>width = 2, height = 2, depth = 8, colorType = PALETTE,
          compression = 0, filter_method = 0, interlace = 0\<rparr> \<and>
   1 < length (occurrences two_plte (chunk_type.code CHUNK_TYPE_PLTE)) \<and>
   decode (Some ''T'') plte_after_idat_inflate two_plte =
     Inl (Message ''Found multiple PLTE chunks, which is not supported'') \<and>
   check_signature no_idat = Inr () \<and>
   view no_idat 8 21 = Inr (take 21 (drop 8 no_idat)) \<and>
   decodeIHDR (Some ''T'') (take 21 (drop 8 no_idat)) =
     Inr \<lparr>width = 2, height = 2, depth = 8, colorType = GRAYSCALE,
          compression = 0, filter_method = 0, interlace = 0\<rparr> \<and>
   read_PLTE no_idat = Inr None \<and>
   occurrences no_idat (chunk_type.code CHUNK_TYPE_IDAT) = [] \<and>
   decode (Some ''T'') scenario_inflate no_idat = Inl (Message ''No IDAT chunk found'')"
proof -
  have h1: "decode (Some ''T'') plte_after_idat_inflate plte_after_idat =
     Inr \<lparr>IHDR = \<lparr>width = 2, height = 2, depth = 8, colorType = PALETTE,
                   compression = 0, filter_method = 0, interlace = 0\<rparr>,
          PLTE = Some [[255, 0, 0], [0, 255, 0]], rawData = ''0,0,1,0,1,0'',
          referenceImage = None\<rparr>"
    by (simp add: decode_def plte_after_idat_bound)
  have h2: "check_signature two_plte = Inr () \<and>
      view two_plte 8 21 = Inr (take 21 (drop 8 two_plte)) \<and>
      decodeIHDR (Some ''T'') (take 21 (drop 8 two_plte)) =
        Inr \<lparr>width = 2, height = 2, depth = 8, colorType = PALETTE,
             compression = 0, filter_method = 0, interlace = 0\<rparr> \<and>
      1 < length (occurrences two_plte (chunk_type.code CHUNK_TYPE_PLTE))"
    by code_simp
  have h3: "check_signature no_idat = Inr () \<and>
      view no_idat 8 21 = Inr (take 21 (drop 8 no_idat)) \<and>
      decodeIHDR (Some ''T'') (take 21 (drop 8 no_idat)) =
        Inr \<lparr>width = 2, height = 2, depth = 8, colorType = GRAYSCALE,
             compression = 0, filter_method = 0, interlace = 0\<rparr> \<and>
      read_PLTE no_idat = Inr None \<and>
      occurrences no_idat (chunk_type.code CHUNK_TYPE_IDAT) = []"
    by code_simp
  note t1 = decode_chunk_checks [where binding = "Some ''T''" and inflate = plte_after_idat_inflate
      and buffer = plte_after_idat, THEN conjunct1, rule_format, OF h1]
  note t2 = decode_chunk_checks [where binding = "Some ''T''" and inflate = plte_after_idat_inflate
      and buffer = two_plte, THEN conjunct2, THEN conjunct1, rule_format, OF h2]
  note t3 = decode_chunk_checks [where binding = "Some ''T''" and inflate = scenario_inflate
      and buffer = no_idat, THEN conjunct2, THEN conjunct2, rule_format, OF h3]
  show ?thesis
    by (simp only: h1 h2 h3 t1 t2 t3 simp_thms)
qed

section \<open>The end-to-end scenario\<close>

lemma scenario_unbound:
  "decode None inflate scenario_png = Inl (ReferenceError ''colorType'')"
  by (simp add: decode_def decode_run_def scenario_png_def check_signature_def view_def seq_def
      equal_def at_def decodeIHDR_def number_def slice_js_def shl_def to_int32_def expect_type_def
      CHUNK_TYPE_IHDR_def decodeColorType_def COLOR_TYPE_def color_defs)

lemma scenario_bound:
  "decode_run (Some ''T'') scenario_inflate scenario_png =
     ([[120, 218, 99, 96, 248, 207, 208, 224, 0, 0, 5, 66, 1, 192]],
      Inr \<lparr>IHDR = \<lparr>width = 2, height = 2, depth = 8, colorType = GRAYSCALE,
                    compression = 0, filter_method = 0, interlace = 0\<rparr>,
           PLTE = None, rawData = ''0,0,255,0,128,64'', referenceImage = None\<rparr>)"
  by code_simp

text \<open>
  C1. The claim is that \<open>decode\<close> returns the raster 0, 255 and 128, 64 for the scenario.
  \<open>decode\<close> throws the ReferenceError of \<open>decodeIHDR\<close> there, whatever the backend does.
  Were \<open>colorType\<close> bound, it would return an image whose \<open>referenceImage\<close> is
  \<open>undefined\<close> and whose \<open>rawData\<close> is a string: \<open>decodeScanlines\<close> returns nothing for
  any input.
\<close>

theorem scenario_decode:
  "decode None inflate scenario_png = Inl (ReferenceError ''colorType'') \<and>
   decode (Some ''T'') scenario_inflate scenario_png =
     Inr \<lparr>IHDR = \<lparr>width = 2, height = 2, depth = 8, colorType = GRAYSCALE,
                   compression = 0, filter_method = 0, interlace = 0\<rparr>,
          PLTE = None, rawData = ''0,0,255,0,128,64'', referenceImage = None\<rparr> \<and>
   decodeScanlines raw hdr = None"
  using scenario_unbound [of inflate] scenario_bound
  by (simp add: decode_def decodeScanlines_def)


end
